theory Spec2Isabelle
  imports Complex_Main
begin

section \<open>Strings\<close>

text \<open>
  A JavaScript string is modelled as a \<open>string\<close> holding its UTF-8 bytes. Every needle
  the program searches for is ASCII, and an ASCII needle occurs in a text exactly where
  its bytes occur in the UTF-8 encoding of the text.
\<close>

definition startsWith :: "string \<Rightarrow> string \<Rightarrow> bool" where
  "startsWith s t = (take (length t) s = t)"

definition endsWith :: "string \<Rightarrow> string \<Rightarrow> bool" where
  "endsWith s t = (length t \<le> length s \<and> drop (length s - length t) s = t)"

text \<open>\<open>s.includes(t)\<close>: \<open>t\<close> occurs in \<open>s\<close> as a contiguous run.\<close>

fun includes_str :: "string \<Rightarrow> string \<Rightarrow> bool" where
  "includes_str [] t = (t = [])"
| "includes_str (c # cs) t = (startsWith (c # cs) t \<or> includes_str cs t)"

text \<open>
  Case folding of a regular expression with the flag \<open>i\<close> (and without \<open>u\<close>): a
  character outside ASCII never folds to an ASCII character, so against an ASCII
  pattern only the letters \<open>A\<close> to \<open>Z\<close> change.
\<close>

definition lower_char :: "char \<Rightarrow> char" where
  "lower_char c =
     (let n = (of_char c :: nat) in if 65 \<le> n \<and> n \<le> 90 then char_of (n + 32) else c)"

definition ascii_lower :: "string \<Rightarrow> string" where
  "ascii_lower s = map lower_char s"

text \<open>
  \<open>String.prototype.toLowerCase\<close>. Besides the ASCII letters, two characters outside
  ASCII lower-case to a text with an ASCII letter: the Kelvin sign (U+212A, bytes
  E2 84 AA) becomes \<open>k\<close>, and the dotted capital I (U+0130, bytes C4 B0) becomes \<open>i\<close>
  followed by U+0307 (bytes CC 87). Every other character outside ASCII lower-cases to
  characters outside ASCII and is left as it is: no needle of the program has one.
\<close>

fun toLowerCase :: "string \<Rightarrow> string" where
  "toLowerCase [] = []"
| "toLowerCase (c # cs) =
     (if c = char_of (0xE2 :: nat) \<and> take 2 cs = [char_of (0x84 :: nat), char_of (0xAA :: nat)]
      then CHR ''k'' # toLowerCase (drop 2 cs)
      else if c = char_of (0xC4 :: nat) \<and> take 1 cs = [char_of (0xB0 :: nat)]
      then CHR ''i'' # char_of (0xCC :: nat) # char_of (0x87 :: nat) # toLowerCase (drop 1 cs)
      else lower_char c # toLowerCase cs)"

section \<open>The file tree\<close>

text \<open>
  A node of \<open>fileStructure\<close>: \<open>{name, path, size, type: 'file'}\<close> or
  \<open>{name, path, type: 'directory', children}\<close>.
\<close>

datatype node =
    FileNode (node_name: string) (node_path: string) (node_size: nat)
  | DirNode (node_name: string) (node_path: string) "node list"

section \<open>Classifier\<close>

text \<open>
  \<open>pattern.test(filePath)\<close> for the patterns of the source, all with the flag \<open>i\<close>:
  the path is folded and searched for the folded alternatives of the pattern.
\<close>

definition componentExtensions :: "string list" where
  "componentExtensions = [''.tsx'', ''.jsx'', ''.vue'', ''.svelte'']"

text \<open>
  \<open>componentPatterns\<close>: \<open>/\/components?\//i\<close>, \<open>/\/ui\//i\<close>, \<open>/\/widgets?\//i\<close>,
  \<open>/\/shared\//i\<close>, each as the list of the texts it matches.
\<close>

definition componentPatterns :: "string list list" where
  "componentPatterns =
     [[''/component/'', ''/components/''],
      [''/ui/''],
      [''/widget/'', ''/widgets/''],
      [''/shared/'']]"

definition test_contains :: "string list \<Rightarrow> string \<Rightarrow> bool" where
  "test_contains alts filePath = list_ex (\<lambda>t. includes_str (ascii_lower filePath) t) alts"

definition isComponent :: "string \<Rightarrow> string \<Rightarrow> bool" where
  "isComponent fileName filePath =
     (list_ex (\<lambda>ext. endsWith fileName ext) componentExtensions \<and>
      list_ex (\<lambda>pattern. test_contains pattern filePath) componentPatterns)"

text \<open>
  The line terminators, which \<open>.\<close> of a regular expression does not match: LF, CR,
  U+2028 (bytes E2 80 A8) and U+2029 (bytes E2 80 A9).
\<close>

definition has_line_terminator :: "string \<Rightarrow> bool" where
  "has_line_terminator s =
     (char_of (10 :: nat) \<in> set s \<or> char_of (13 :: nat) \<in> set s \<or>
      includes_str s [char_of (0xE2 :: nat), char_of (0x80 :: nat), char_of (0xA8 :: nat)] \<or>
      includes_str s [char_of (0xE2 :: nat), char_of (0x80 :: nat), char_of (0xA9 :: nat)])"

text \<open>
  \<open>/app\/.*\.(tsx|jsx|js|ts)$/i\<close> on an already folded path: somewhere \<open>app/\<close>
  occurs, what follows it has no line terminator up to the end of the path, and the
  path ends with one of the four extensions (which starts after \<open>app/\<close>).
\<close>

fun test_app_router :: "string \<Rightarrow> bool" where
  "test_app_router [] = False"
| "test_app_router (c # cs) =
     ((startsWith (c # cs) ''app/'' \<and>
       (let rest = drop 4 (c # cs) in
          \<not> has_line_terminator rest \<and>
          list_ex (\<lambda>ext. endsWith rest ext) [''.tsx'', ''.jsx'', ''.js'', ''.ts''])) \<or>
      test_app_router cs)"

text \<open>
  \<open>pagePatterns\<close>: the four patterns \<open>/\/pages?\//i\<close>, \<open>/\/routes?\//i\<close>,
  \<open>/\/views?\//i\<close>, \<open>/\/screens?\//i\<close> search the path, \<open>/^pages?\//i\<close> is
  anchored at its start, and the last is \<open>test_app_router\<close>.
\<close>

definition pageContainsPatterns :: "string list list" where
  "pageContainsPatterns =
     [[''/page/'', ''/pages/''],
      [''/route/'', ''/routes/''],
      [''/view/'', ''/views/''],
      [''/screen/'', ''/screens/'']]"

definition isPage :: "string \<Rightarrow> string \<Rightarrow> bool" where
  "isPage fileName filePath =
     ((list_ex (\<lambda>pattern. test_contains pattern filePath) pageContainsPatterns \<or>
       startsWith (ascii_lower filePath) ''page/'' \<or>
       startsWith (ascii_lower filePath) ''pages/'' \<or>
       test_app_router (ascii_lower filePath)) \<or>
      includes_str (toLowerCase fileName) ''page'' \<or>
      includes_str (toLowerCase fileName) ''route'')"

section \<open>Aggregator\<close>

record project_stats =
  totalFiles :: nat
  components :: nat
  pages :: nat

text \<open>
  \<open>countFiles\<close> updates the three counters of the enclosing \<open>analyzeProjectStats\<close>;
  here it takes them and returns them updated. A directory node always has
  \<open>children\<close> (an array, which is truthy also when empty), a file node never.
\<close>

fun countFiles :: "node list \<Rightarrow> project_stats \<Rightarrow> project_stats" where
  "countFiles [] st = st"
| "countFiles (FileNode name path sz # files) st =
     countFiles files
       (let st1 = st\<lparr>totalFiles := totalFiles st + 1\<rparr>;
            st2 = (if isComponent name path then st1\<lparr>components := components st1 + 1\<rparr> else st1);
            st3 = (if isPage name path then st2\<lparr>pages := pages st2 + 1\<rparr> else st2)
        in st3)"
| "countFiles (DirNode name path cs # files) st = countFiles files (countFiles cs st)"

definition analyzeProjectStats :: "node list \<Rightarrow> project_stats" where
  "analyzeProjectStats fileStructure =
     countFiles fileStructure \<lparr>totalFiles = 0, components = 0, pages = 0\<rparr>"

text \<open>The file nodes of a tree, at any depth, in pre-order.\<close>

fun file_nodes :: "node list \<Rightarrow> node list" where
  "file_nodes [] = []"
| "file_nodes (FileNode name path sz # files) = FileNode name path sz # file_nodes files"
| "file_nodes (DirNode name path cs # files) = file_nodes cs @ file_nodes files"

section \<open>The repository host\<close>

text \<open>
  An entry of a directory listing of the host: \<open>{name, path, type, size}\<close>, with
  \<open>type\<close> the text the host sent (\<open>file\<close>, \<open>dir\<close>, or another such as \<open>symlink\<close>).
\<close>

datatype entry =
  Entry (entry_name: string) (entry_path: string) (entry_type: string) (entry_size: nat)

text \<open>
  What one \<open>fetch\<close> gives: the promise rejects (a network error, with the message of
  the error thrown), or the response has \<open>ok\<close> false, or it is ok and reading its body
  throws (\<open>response.json()\<close> rejects, or \<open>atob\<close> of a file's content throws), or
  the body is read.
\<close>

datatype 'a response =
    Rejected string
  | NotOk
  | Unreadable string
  | Body 'a

text \<open>The metadata record of a repository, as \<open>RepoData.repository\<close> declares it.\<close>

record repository_info =
  repo_name :: string
  description :: string
  stargazers_count :: nat
  watchers_count :: nat
  forks_count :: nat
  language :: string
  created_at :: string
  updated_at :: string

text \<open>
  The host answers a request by its URL. The four kinds of request of the program are
  kept apart by the type of the body they read: the metadata of the repository, a
  directory listing, the keys of the language breakdown (\<open>Object.keys(languages)\<close>),
  and the decoded content of a file (\<open>atob(data.content)\<close>).
\<close>

record host =
  fetch_repo :: "string \<Rightarrow> repository_info response"
  fetch_listing :: "string \<Rightarrow> entry list response"
  fetch_languages :: "string \<Rightarrow> string list response"
  fetch_file :: "string \<Rightarrow> string response"

definition repo_url :: "string \<Rightarrow> string \<Rightarrow> string" where
  "repo_url owner repo = ''https://api.github.com/repos/'' @ owner @ ''/'' @ repo"

definition contents_url :: "string \<Rightarrow> string \<Rightarrow> string \<Rightarrow> string" where
  "contents_url owner repo path = repo_url owner repo @ ''/contents/'' @ path"

section \<open>Tree Walker\<close>

text \<open>
  \<open>analyzeFileStructure\<close> returns the nodes together with the URLs it fetched, in the
  order of the requests. An error thrown inside its \<open>try\<close> gives the empty sequence.
\<close>

function analyzeFileStructure ::
  "host \<Rightarrow> string \<Rightarrow> string \<Rightarrow> string \<Rightarrow> nat \<Rightarrow> node list \<times> string list" where
  "analyzeFileStructure h owner repo path depth =
     (if depth > 3 then ([], [])
      else
        (case fetch_listing h (contents_url owner repo path) of
           Body contents \<Rightarrow>
             (let rs = map (\<lambda>item.
                   if entry_type item = ''file''
                   then ([FileNode (entry_name item) (entry_path item) (entry_size item)], [])
                   else if entry_type item = ''dir'' \<and> \<not> startsWith (entry_name item) ''.'' \<and>
                           entry_name item \<noteq> ''node_modules''
                   then (let sub = analyzeFileStructure h owner repo (entry_path item) (depth + 1)
                         in ([DirNode (entry_name item) (entry_path item) (fst sub)], snd sub))
                   else ([], [])) contents
              in (concat (map fst rs), contents_url owner repo path # concat (map snd rs)))
         | _ \<Rightarrow> ([], [contents_url owner repo path])))"
  by pat_completeness auto
termination
  by (relation "measure (\<lambda>(h, owner, repo, path, depth). 4 - depth)") auto

declare analyzeFileStructure.simps [simp del]

text \<open>
  What the loop of \<open>analyzeFileStructure\<close>, called at a depth, pushes for one entry
  of the listing: a file node, a directory node with the result of the walk one level
  deeper as its children, or nothing.
\<close>

definition entry_nodes :: "host \<Rightarrow> string \<Rightarrow> string \<Rightarrow> nat \<Rightarrow> entry \<Rightarrow> node list" where
  "entry_nodes h owner repo depth item =
     (if entry_type item = ''file''
      then [FileNode (entry_name item) (entry_path item) (entry_size item)]
      else if entry_type item = ''dir'' \<and> \<not> startsWith (entry_name item) ''.'' \<and>
              entry_name item \<noteq> ''node_modules''
      then [DirNode (entry_name item) (entry_path item)
              (fst (analyzeFileStructure h owner repo (entry_path item) (depth + 1)))]
      else [])"

text \<open>
  The nodes of a tree at a nesting level: level 1 is the sequence itself, level
  \<open>k + 1\<close> the children of the directory nodes of level \<open>k\<close>. A file node has no
  \<open>children\<close>.
\<close>

fun child_nodes :: "node \<Rightarrow> node list" where
  "child_nodes (FileNode name path sz) = []"
| "child_nodes (DirNode name path cs) = cs"

fun nodes_at_level :: "nat \<Rightarrow> node list \<Rightarrow> node list" where
  "nodes_at_level 0 ns = []"
| "nodes_at_level (Suc 0) ns = ns"
| "nodes_at_level (Suc (Suc k)) ns = nodes_at_level (Suc k) (concat (map child_nodes ns))"

text \<open>All the nodes of a tree, in pre-order.\<close>

fun all_nodes :: "node list \<Rightarrow> node list" where
  "all_nodes [] = []"
| "all_nodes (FileNode name path sz # ns) = FileNode name path sz # all_nodes ns"
| "all_nodes (DirNode name path cs # ns) = DirNode name path cs # all_nodes cs @ all_nodes ns"

text \<open>The guard of the walker on a directory entry, and a host that never lists an
  entry the guard rejects.\<close>

definition excluded_dir :: "entry \<Rightarrow> bool" where
  "excluded_dir item =
     (entry_type item = ''dir'' \<and>
      (startsWith (entry_name item) ''.'' \<or> entry_name item = ''node_modules''))"

definition without_excluded :: "host \<Rightarrow> host" where
  "without_excluded h =
     h\<lparr>fetch_listing := (\<lambda>url. case fetch_listing h url of
          Body contents \<Rightarrow> Body (filter (\<lambda>item. \<not> excluded_dir item) contents)
        | r \<Rightarrow> r)\<rparr>"

text \<open>A host that answers the listing requests of a table and no other request.\<close>

definition listing_host :: "(string \<times> entry list) list \<Rightarrow> host" where
  "listing_host table =
     \<lparr>fetch_repo = (\<lambda>url. NotOk),
      fetch_listing = (\<lambda>url. case map_of table url of Some es \<Rightarrow> Body es | None \<Rightarrow> NotOk),
      fetch_languages = (\<lambda>url. NotOk),
      fetch_file = (\<lambda>url. NotOk)\<rparr>"

section \<open>Technology detection\<close>

text \<open>\<open>technologies.add\<close> on a \<open>Set\<close>, which keeps the order of insertion.\<close>

definition add_tech :: "string \<Rightarrow> string list \<Rightarrow> string list" where
  "add_tech t ts = (if t \<in> set ts then ts else ts @ [t])"

text \<open>
  The tests of \<open>analyzeTech\<close> in the order of the source: whether the test reads the
  path (only the one for GraphQL does) or the name, the needle, and the tag added.
\<close>

definition tech_rules :: "(bool \<times> string \<times> string) list" where
  "tech_rules =
     [(False, ''package.json'', ''Node.js''),
      (False, ''next.config'', ''Next.js''),
      (False, ''nuxt.config'', ''Nuxt.js''),
      (False, ''vue.config'', ''Vue.js''),
      (False, ''angular.json'', ''Angular''),
      (False, ''svelte.config'', ''Svelte''),
      (False, ''vite.config'', ''Vite''),
      (False, ''webpack.config'', ''Webpack''),
      (False, ''tailwind.config'', ''Tailwind CSS''),
      (False, ''postcss.config'', ''PostCSS''),
      (False, ''tsconfig.json'', ''TypeScript''),
      (False, ''jest.config'', ''Jest''),
      (False, ''cypress.config'', ''Cypress''),
      (False, ''playwright.config'', ''Playwright''),
      (False, ''docker'', ''Docker''),
      (False, ''docker-compose'', ''Docker Compose''),
      (False, ''.env'', ''Environment Variables''),
      (False, ''prisma'', ''Prisma''),
      (False, ''supabase'', ''Supabase''),
      (False, ''firebase'', ''Firebase''),
      (True, ''graphql'', ''GraphQL''),
      (False, ''eslint'', ''ESLint''),
      (False, ''prettier'', ''Prettier''),
      (False, ''husky'', ''Husky''),
      (False, ''lint-staged'', ''Lint Staged'')]"

fun analyzeTech :: "node list \<Rightarrow> string list \<Rightarrow> string list" where
  "analyzeTech [] technologies = technologies"
| "analyzeTech (FileNode name path sz # files) technologies =
     analyzeTech files
       (let fileName = toLowerCase name; filePath = toLowerCase path
        in fold (\<lambda>(on_path, needle, tag) ts.
                   if includes_str (if on_path then filePath else fileName) needle
                   then add_tech tag ts else ts)
             tech_rules technologies)"
| "analyzeTech (DirNode name path cs # files) technologies =
     analyzeTech files (analyzeTech cs technologies)"

definition detectTechnologies :: "node list \<Rightarrow> string list \<Rightarrow> string list" where
  "detectTechnologies fileStructure languages =
     analyzeTech fileStructure (fold add_tech languages [])"

section \<open>Sampler\<close>

record sample_file =
  sample_path :: string
  sample_content :: string

definition targetFiles :: "string list" where
  "targetFiles =
     [''package.json'', ''README.md'', ''tsconfig.json'', ''next.config.js'', ''vite.config.ts'']"

definition is_target :: "string \<Rightarrow> bool" where
  "is_target name = list_ex (\<lambda>target. includes_str name target) targetFiles"

text \<open>
  \<open>findAndFetchFiles\<close> pushes onto the \<open>sampleFiles\<close> of the enclosing function; here
  it takes the samples and the URLs fetched so far and returns them extended. Whatever
  goes wrong with one file (the request rejects, the response is not ok, its body or
  content cannot be read) leaves the samples as they are.
\<close>

fun findAndFetchFiles ::
  "host \<Rightarrow> string \<Rightarrow> string \<Rightarrow> node list \<Rightarrow> sample_file list \<times> string list \<Rightarrow>
     sample_file list \<times> string list" where
  "findAndFetchFiles h owner repo [] st = st"
| "findAndFetchFiles h owner repo (FileNode name path sz # files) st =
     findAndFetchFiles h owner repo files
       (if is_target name
        then ((case fetch_file h (contents_url owner repo path) of
                 Body content \<Rightarrow> fst st @ [\<lparr>sample_path = path, sample_content = content\<rparr>]
               | _ \<Rightarrow> fst st),
              snd st @ [contents_url owner repo path])
        else st)"
| "findAndFetchFiles h owner repo (DirNode name path cs # files) st =
     findAndFetchFiles h owner repo files (findAndFetchFiles h owner repo cs st)"

definition getSampleFiles ::
  "host \<Rightarrow> string \<Rightarrow> string \<Rightarrow> node list \<Rightarrow> sample_file list \<times> string list" where
  "getSampleFiles h owner repo fileStructure =
     (let st = findAndFetchFiles h owner repo fileStructure ([], [])
      in (take 5 (fst st), snd st))"

text \<open>
  The candidates of a tree: its file nodes, in pre-order, whose name contains one of
  \<open>targetFiles\<close>; and the samples of a list of nodes whose content the host gives.
\<close>

definition candidates :: "node list \<Rightarrow> node list" where
  "candidates tree = filter (\<lambda>n. is_target (node_name n)) (file_nodes tree)"

definition fetched :: "host \<Rightarrow> string \<Rightarrow> string \<Rightarrow> node \<Rightarrow> bool" where
  "fetched h owner repo n =
     (case fetch_file h (contents_url owner repo (node_path n)) of
        Body content \<Rightarrow> True | _ \<Rightarrow> False)"

definition sample_of :: "host \<Rightarrow> string \<Rightarrow> string \<Rightarrow> node \<Rightarrow> sample_file" where
  "sample_of h owner repo n =
     \<lparr>sample_path = node_path n,
      sample_content = (case fetch_file h (contents_url owner repo (node_path n)) of
                          Body content \<Rightarrow> content | _ \<Rightarrow> [])\<rparr>"

text \<open>
  A tree with seven candidates in pre-order, some of them nested, and a host that
  gives the content of every file but the first candidate.
\<close>

definition seven_candidates :: "node list" where
  "seven_candidates =
     [FileNode ''package.json'' ''package.json'' 10,
      FileNode ''README.md'' ''README.md'' 20,
      FileNode ''index.ts'' ''index.ts'' 5,
      DirNode ''web'' ''web''
        [FileNode ''package.json'' ''web/package.json'' 10,
         FileNode ''tsconfig.json'' ''web/tsconfig.json'' 10,
         FileNode ''vite.config.ts'' ''web/vite.config.ts'' 10],
      FileNode ''tsconfig.json'' ''tsconfig.json'' 10,
      FileNode ''next.config.js'' ''next.config.js'' 10]"

definition file_host :: "string list \<Rightarrow> host" where
  "file_host failing =
     \<lparr>fetch_repo = (\<lambda>url. NotOk),
      fetch_listing = (\<lambda>url. NotOk),
      fetch_languages = (\<lambda>url. NotOk),
      fetch_file = (\<lambda>url. if url \<in> set failing then NotOk else Body ''{}'')\<rparr>"

section \<open>Snapshot Builder\<close>

record repo_data =
  repository :: repository_info
  stats :: project_stats
  languages :: "string list"
  technologies :: "string list"
  fileStructure :: "node list"
  sampleFiles :: "sample_file list"

text \<open>An \<open>Error\<close> thrown, with its message.\<close>

datatype error = Error string

definition InvalidUrl :: error where
  "InvalidUrl = Error ''Invalid GitHub repository URL''"

text \<open>
  \<open>repoUrl.match(/github\.com\/([^\/]+)\/([^\/]+)/)\<close>: the leftmost place where
  \<open>github.com/\<close> is followed by a non-empty run without \<open>/\<close>, a \<open>/\<close>, and a
  non-empty run without \<open>/\<close>. Both runs are greedy, and a shorter first run is never
  followed by \<open>/\<close>, so the runs are the longest ones. The result is the two groups.
\<close>

fun match_repo_url :: "string \<Rightarrow> (string \<times> string) option" where
  "match_repo_url [] = None"
| "match_repo_url (c # cs) =
     (if startsWith (c # cs) ''github.com/''
      then (let rest = drop 11 (c # cs);
                owner = takeWhile (\<lambda>x. x \<noteq> CHR ''/'') rest;
                rest2 = dropWhile (\<lambda>x. x \<noteq> CHR ''/'') rest;
                repo = takeWhile (\<lambda>x. x \<noteq> CHR ''/'') (drop 1 rest2)
            in if owner \<noteq> [] \<and> rest2 \<noteq> [] \<and> repo \<noteq> []
               then Some (owner, repo) else match_repo_url cs)
      else match_repo_url cs)"

text \<open>\<open>repo.replace(/\.git$/, '')\<close>\<close>

definition strip_git :: "string \<Rightarrow> string" where
  "strip_git repo = (if endsWith repo ''.git'' then take (length repo - 4) repo else repo)"

text \<open>The \<open>catch\<close> of \<open>analyzeRepository\<close> wraps the message of whatever was thrown.\<close>

definition analyze_failed :: "string \<Rightarrow> error" where
  "analyze_failed msg = Error (''Failed to analyze repository: '' @ msg)"

text \<open>
  \<open>analyzeRepository\<close> returns the snapshot or the error thrown, together with the
  URLs it fetched, in the order of the requests. The check of the URL is outside the
  \<open>try\<close>, so its error is thrown as it is.
\<close>

definition analyzeRepository :: "host \<Rightarrow> string \<Rightarrow> (error + repo_data) \<times> string list" where
  "analyzeRepository h repoUrl =
     (case match_repo_url repoUrl of
        None \<Rightarrow> (Inl (Error ''Invalid GitHub repository URL''), [])
      | Some (owner, repo) \<Rightarrow>
          (let cleanRepo = strip_git repo;
               u1 = repo_url owner cleanRepo;
               u2 = repo_url owner cleanRepo @ ''/contents'';
               u3 = repo_url owner cleanRepo @ ''/languages''
           in case fetch_repo h u1 of
                Rejected msg \<Rightarrow> (Inl (analyze_failed msg), [u1])
              | NotOk \<Rightarrow> (Inl (analyze_failed ''Repository not found or not accessible''), [u1])
              | Unreadable msg \<Rightarrow> (Inl (analyze_failed msg), [u1])
              | Body repo_info \<Rightarrow>
                  (case fetch_listing h u2 of
                     Rejected msg \<Rightarrow> (Inl (analyze_failed msg), [u1, u2])
                   | NotOk \<Rightarrow>
                       (Inl (analyze_failed ''Failed to fetch repository contents''), [u1, u2])
                   | Unreadable msg \<Rightarrow> (Inl (analyze_failed msg), [u1, u2])
                   | Body contents \<Rightarrow>
                       (case fetch_languages h u3 of
                          Rejected msg \<Rightarrow> (Inl (analyze_failed msg), [u1, u2, u3])
                        | Unreadable msg \<Rightarrow> (Inl (analyze_failed msg), [u1, u2, u3])
                        | languagesResponse \<Rightarrow>
                            (let langs = (case languagesResponse of Body keys \<Rightarrow> keys | _ \<Rightarrow> []);
                                 walked = analyzeFileStructure h owner cleanRepo [] 0;
                                 sampled = getSampleFiles h owner cleanRepo (fst walked)
                             in (Inr \<lparr>repository = repo_info,
                                      stats = analyzeProjectStats (fst walked),
                                      languages = langs,
                                      technologies = detectTechnologies (fst walked) langs,
                                      fileStructure = fst walked,
                                      sampleFiles = fst sampled\<rparr>,
                                 [u1, u2, u3] @ snd walked @ snd sampled))))))"

text \<open>
  A host for \<open>acme/widgets\<close> that gives the metadata and the languages and, for the
  two listing requests of the root (by \<open>analyzeRepository\<close> itself and by the walker),
  what its arguments say; it fails every other request.
\<close>

definition widgets_info :: repository_info where
  "widgets_info =
     \<lparr>repo_name = ''widgets'', description = ''Widgets'', stargazers_count = 3,
      watchers_count = 3, forks_count = 1, language = ''TypeScript'',
      created_at = ''2024-01-01T00:00:00Z'', updated_at = ''2024-06-01T00:00:00Z''\<rparr>"

definition widgets_host :: "entry list response \<Rightarrow> entry list response \<Rightarrow> host" where
  "widgets_host root_listing walker_listing =
     \<lparr>fetch_repo = (\<lambda>url. if url = ''https://api.github.com/repos/acme/widgets''
                            then Body widgets_info else NotOk),
      fetch_listing = (\<lambda>url.
         if url = ''https://api.github.com/repos/acme/widgets/contents'' then root_listing
         else if url = ''https://api.github.com/repos/acme/widgets/contents/'' then walker_listing
         else NotOk),
      fetch_languages = (\<lambda>url. if url = ''https://api.github.com/repos/acme/widgets/languages''
                                 then Body [''TypeScript''] else NotOk),
      fetch_file = (\<lambda>url. NotOk)\<rparr>"

section \<open>Narrative response parser\<close>

text \<open>
  A value that \<open>JSON.parse\<close> returns. A number is the value of the double, as a real
  (the infinities, which only a numeral beyond the range of the doubles gives, are
  left out). An object is the list of its members in the order of the text; of two
  members with one key the later one counts. \<open>undefined\<close> is \<open>None\<close> of \<open>json option\<close>.
\<close>

datatype json =
    JNull
  | JBool bool
  | JNum real
  | JStr string
  | JArr "json list"
  | JObj "(string \<times> json) list"

text \<open>A JavaScript number that arithmetic gives: \<open>NaN\<close> or a real.\<close>

datatype number = NaN | Num real

text \<open>
  What the program takes from the JavaScript runtime: \<open>JSON.parse\<close> (\<open>None\<close> when it
  throws), and the conversion to a number of a text, an array or an object (\<open>None\<close>
  when it throws, as it does for an object whose member \<open>valueOf\<close> is not callable).
\<close>

record js_runtime =
  JSON_parse :: "string \<Rightarrow> json option"
  ToNumber_other :: "json \<Rightarrow> number option"

text \<open>
  \<open>v.key\<close> for a value \<open>v\<close> other than \<open>null\<close> and a key that is not the name of a
  built-in property (the keys of the program are not): a member of an object,
  \<open>undefined\<close> on every other value. \<open>v?.key\<close> is \<open>undefined\<close> when \<open>v\<close> is
  \<open>undefined\<close> or \<open>null\<close>.
\<close>

fun get_prop :: "json \<Rightarrow> string \<Rightarrow> json option" where
  "get_prop (JObj members) key = map_of (rev members) key"
| "get_prop v key = None"

fun opt_chain :: "json option \<Rightarrow> string \<Rightarrow> json option" where
  "opt_chain None key = None"
| "opt_chain (Some JNull) key = None"
| "opt_chain (Some v) key = get_prop v key"

fun truthy :: "json option \<Rightarrow> bool" where
  "truthy None = False"
| "truthy (Some JNull) = False"
| "truthy (Some (JBool b)) = b"
| "truthy (Some (JNum n)) = (n \<noteq> 0)"
| "truthy (Some (JStr s)) = (s \<noteq> [])"
| "truthy (Some (JArr xs)) = True"
| "truthy (Some (JObj members)) = True"

text \<open>\<open>a || d\<close> for a default \<open>d\<close> that is defined.\<close>

definition js_or :: "json option \<Rightarrow> json \<Rightarrow> json" where
  "js_or a d = (if truthy a then the a else d)"

text \<open>\<open>Array.isArray(a) ? a : []\<close>\<close>

fun array_or_empty :: "json option \<Rightarrow> json list" where
  "array_or_empty (Some (JArr xs)) = xs"
| "array_or_empty v = []"

fun to_number :: "js_runtime \<Rightarrow> json \<Rightarrow> number option" where
  "to_number rt JNull = Some (Num 0)"
| "to_number rt (JBool b) = Some (Num (if b then 1 else 0))"
| "to_number rt (JNum n) = Some (Num n)"
| "to_number rt v = ToNumber_other rt v"

fun Math_min :: "real \<Rightarrow> number \<Rightarrow> number" where
  "Math_min a NaN = NaN"
| "Math_min a (Num b) = Num (min a b)"

fun Math_max :: "real \<Rightarrow> number \<Rightarrow> number" where
  "Math_max a NaN = NaN"
| "Math_max a (Num b) = Num (max a b)"

record architecture =
  arch_pattern :: json
  arch_components :: "json list"

record insights =
  codeQuality :: json
  complexity :: number
  performance :: json

record analysis_result =
  summary :: json
  features :: "json list"
  architecture :: architecture
  insights :: insights
  recommendations :: "json list"

text \<open>
  \<open>analysisText.match(/\{[\s\S]*\}/)\<close>: from the first \<open>{\<close> to the last \<open>}\<close>
  after it, when there is one.
\<close>

definition match_json :: "string \<Rightarrow> string option" where
  "match_json analysisText =
     (let from_brace = dropWhile (\<lambda>c. c \<noteq> CHR ''{'') analysisText
      in if from_brace = [] then None
         else (let inner = rev (dropWhile (\<lambda>c. c \<noteq> CHR ''}'') (rev (tl from_brace)))
               in if inner = [] then None else Some (CHR ''{'' # inner)))"

definition fallback_result :: analysis_result where
  "fallback_result =
     \<lparr>summary = JStr ''Analysis completed but could not parse detailed results. The repository appears to be a software project with various files and components.'',
      features = [JStr ''Code organization'', JStr ''File structure'', JStr ''Documentation''],
      architecture =
        \<lparr>arch_pattern = JStr ''Standard project structure'',
         arch_components =
           [JStr ''Source files'', JStr ''Configuration files'', JStr ''Documentation'']\<rparr>,
      insights =
        \<lparr>codeQuality = JStr ''Repository structure suggests organized development practices.'',
         complexity = Num 5,
         performance =
           JStr ''Performance characteristics depend on the specific implementation details.''\<rparr>,
      recommendations =
        [JStr ''Consider adding more documentation'',
         JStr ''Ensure proper testing coverage'',
         JStr ''Optimize build configuration if applicable'']\<rparr>"

text \<open>
  \<open>Math.max(1, Math.min(10, parsed.insights?.complexity || 5))\<close>, \<open>None\<close> when the
  conversion to a number throws.
\<close>

definition clamp_complexity :: "js_runtime \<Rightarrow> json \<Rightarrow> number option" where
  "clamp_complexity rt parsed =
     (case to_number rt (js_or (opt_chain (get_prop parsed ''insights'') ''complexity'') (JNum 5)) of
        None \<Rightarrow> None
      | Some x \<Rightarrow> Some (Math_max 1 (Math_min 10 x)))"

text \<open>
  \<open>parseAnalysisResult\<close>: every error thrown in its \<open>try\<close> (no match, \<open>JSON.parse\<close>
  throws, a member read of \<open>null\<close>, a conversion that throws) is caught and gives
  the fallback.
\<close>

definition parseAnalysisResult :: "js_runtime \<Rightarrow> string \<Rightarrow> analysis_result" where
  "parseAnalysisResult rt analysisText =
     (case match_json analysisText of
        None \<Rightarrow> fallback_result
      | Some jsonString \<Rightarrow>
          (case JSON_parse rt jsonString of
             None \<Rightarrow> fallback_result
           | Some parsed \<Rightarrow>
               if parsed = JNull then fallback_result
               else
                 (case clamp_complexity rt parsed of
                    None \<Rightarrow> fallback_result
                  | Some c \<Rightarrow>
                      \<lparr>summary = js_or (get_prop parsed ''summary'') (JStr ''No summary available''),
                       features = array_or_empty (get_prop parsed ''features''),
                       architecture =
                         \<lparr>arch_pattern =
                            js_or (opt_chain (get_prop parsed ''architecture'') ''pattern'')
                              (JStr ''Unknown''),
                          arch_components =
                            array_or_empty
                              (opt_chain (get_prop parsed ''architecture'') ''components'')\<rparr>,
                       insights =
                         \<lparr>codeQuality =
                            js_or (opt_chain (get_prop parsed ''insights'') ''codeQuality'')
                              (JStr ''No assessment available''),
                          complexity = c,
                          performance =
                            js_or (opt_chain (get_prop parsed ''insights'') ''performance'')
                              (JStr ''No performance notes available'')\<rparr>,
                       recommendations = array_or_empty (get_prop parsed ''recommendations'')\<rparr>)))"

text \<open>
  A balanced span of a text, in the words of the specification: a \<open>{\<close> whose
  matching \<open>}\<close> occurs later in the text. \<open>closes cs d\<close> reads \<open>cs\<close> with
  \<open>d + 1\<close> braces open and says whether the outermost of them gets closed.
\<close>

fun closes :: "string \<Rightarrow> nat \<Rightarrow> bool" where
  "closes [] d = False"
| "closes (c # cs) d =
     (if c = CHR ''{'' then closes cs (Suc d)
      else if c = CHR ''}'' then (case d of 0 \<Rightarrow> True | Suc d' \<Rightarrow> closes cs d')
      else closes cs d)"

fun has_balanced_span :: "string \<Rightarrow> bool" where
  "has_balanced_span [] = False"
| "has_balanced_span (c # cs) = ((c = CHR ''{'' \<and> closes cs 0) \<or> has_balanced_span cs)"

text \<open>A runtime whose \<open>JSON.parse\<close> knows the texts of a table and throws on every other
  text, and whose conversion of texts, arrays and objects gives \<open>NaN\<close>.\<close>

definition table_runtime :: "(string \<times> json) list \<Rightarrow> js_runtime" where
  "table_runtime table =
     \<lparr>JSON_parse = map_of table, ToNumber_other = (\<lambda>v. Some NaN)\<rparr>"

text \<open>
  Two hosts for the walker. The first lists, at the root of \<open>acme/widgets\<close>, a
  dependency cache, a hidden directory, a file and a plain directory with one file.
  The second nests directories five deep, with a file in the innermost.
\<close>

definition mixed_host :: host where
  "mixed_host = listing_host
     [(contents_url ''acme'' ''widgets'' [],
        [Entry ''node_modules'' ''node_modules'' ''dir'' 0,
         Entry ''.github'' ''.github'' ''dir'' 0,
         Entry ''index.ts'' ''index.ts'' ''file'' 7,
         Entry ''src'' ''src'' ''dir'' 0]),
      (contents_url ''acme'' ''widgets'' ''node_modules'',
        [Entry ''left-pad.js'' ''node_modules/left-pad.js'' ''file'' 9]),
      (contents_url ''acme'' ''widgets'' ''src'',
        [Entry ''main.ts'' ''src/main.ts'' ''file'' 11])]"

definition deep_host :: host where
  "deep_host = listing_host
     [(contents_url ''acme'' ''widgets'' [], [Entry ''a'' ''a'' ''dir'' 0]),
      (contents_url ''acme'' ''widgets'' ''a'', [Entry ''b'' ''a/b'' ''dir'' 0]),
      (contents_url ''acme'' ''widgets'' ''a/b'', [Entry ''c'' ''a/b/c'' ''dir'' 0]),
      (contents_url ''acme'' ''widgets'' ''a/b/c'', [Entry ''d'' ''a/b/c/d'' ''dir'' 0]),
      (contents_url ''acme'' ''widgets'' ''a/b/c/d'', [Entry ''f.ts'' ''a/b/c/d/f.ts'' ''file'' 1])]"

text \<open>
  A host for \<open>acme/widgets\<close> on which part of the requests fail. The root lists two
  files, the directories \<open>src\<close> and \<open>gone\<close>, and the candidates \<open>package.json\<close>
  and \<open>README.md\<close>; the listing of \<open>src\<close> is given, the request for the listing of
  \<open>gone\<close> rejects, the request for the languages is not ok, the content of
  \<open>package.json\<close> is not ok and the content of \<open>README.md\<close> is given.
\<close>

definition partial_host :: host where
  "partial_host =
     \<lparr>fetch_repo = (\<lambda>url. if url = ''https://api.github.com/repos/acme/widgets''
                            then Body widgets_info else NotOk),
      fetch_listing = (\<lambda>url.
         if url = ''https://api.github.com/repos/acme/widgets/contents'' \<or>
            url = ''https://api.github.com/repos/acme/widgets/contents/''
         then Body [Entry ''index.ts'' ''index.ts'' ''file'' 7,
                    Entry ''src'' ''src'' ''dir'' 0,
                    Entry ''gone'' ''gone'' ''dir'' 0,
                    Entry ''package.json'' ''package.json'' ''file'' 300,
                    Entry ''README.md'' ''README.md'' ''file'' 40]
         else if url = ''https://api.github.com/repos/acme/widgets/contents/src''
         then Body [Entry ''main.ts'' ''src/main.ts'' ''file'' 11]
         else if url = ''https://api.github.com/repos/acme/widgets/contents/gone''
         then Rejected ''Failed to fetch''
         else NotOk),
      fetch_languages = (\<lambda>url. NotOk),
      fetch_file = (\<lambda>url.
         if url = ''https://api.github.com/repos/acme/widgets/contents/README.md''
         then Body ''# Widgets'' else NotOk)\<rparr>"

text \<open>
  A runtime for seven answers of the service: a complexity of 0, of 15, of \<open>null\<close>,
  of \<open>false\<close>, of the empty text and of -3, and an object without \<open>insights\<close>.
\<close>

definition example_runtime :: js_runtime where
  \<open>example_runtime = table_runtime
     [(''{"insights":{"complexity":0}}'',
         JObj [(''insights'', JObj [(''complexity'', JNum 0)])]),
      (''{"insights":{"complexity":15}}'',
         JObj [(''insights'', JObj [(''complexity'', JNum 15)])]),
      (''{"summary":"A tool"}'',
         JObj [(''summary'', JStr ''A tool'')]),
      (''{"insights":{"complexity":null}}'',
         JObj [(''insights'', JObj [(''complexity'', JNull)])]),
      (''{"insights":{"complexity":false}}'',
         JObj [(''insights'', JObj [(''complexity'', JBool False)])]),
      (''{"insights":{"complexity":""}}'',
         JObj [(''insights'', JObj [(''complexity'', JStr [])])]),
      (''{"insights":{"complexity":-3}}'',
         JObj [(''insights'', JObj [(''complexity'', JNum (- 3))])])]\<close>

section \<open>Properties of the strings and the classifier\<close>

lemma lower_char_slash: "lower_char c = CHR ''/'' \<longleftrightarrow> c = CHR ''/''"
proof
  assume a: "lower_char c = CHR ''/''"
  show "c = CHR ''/''"
  proof (cases "65 \<le> (of_char c :: nat) \<and> (of_char c :: nat) \<le> 90")
    case True
    then have "lower_char c = char_of ((of_char c :: nat) + 32)"
      by (simp add: lower_char_def)
    then have "(of_char (lower_char c) :: nat) = (of_char c + 32) mod 256"
      by simp
    with a True show ?thesis by simp
  next
    case False
    then have "lower_char c = c"
      unfolding lower_char_def Let_def by (rule if_not_P)
    with a show ?thesis by simp
  qed
next
  assume "c = CHR ''/''"
  then show "lower_char c = CHR ''/''" by (simp add: lower_char_def)
qed

lemma count_slash_ascii_lower:
  "count_list (ascii_lower s) CHR ''/'' = count_list s CHR ''/''"
  by (induction s) (simp_all add: ascii_lower_def lower_char_slash)

lemma includes_str_decomp: "includes_str s t \<Longrightarrow> \<exists>pre post. s = pre @ t @ post"
proof (induction s)
  case Nil
  then show ?case by simp
next
  case (Cons c cs)
  show ?case
  proof (cases "startsWith (c # cs) t")
    case True
    then have "c # cs = [] @ t @ drop (length t) (c # cs)"
      unfolding startsWith_def by (metis append_Nil append_take_drop_id)
    then show ?thesis by blast
  next
    case False
    with Cons.prems have "includes_str cs t" by simp
    then obtain pre post where "cs = pre @ t @ post" using Cons.IH by blast
    then have "c # cs = (c # pre) @ t @ post" by simp
    then show ?thesis by blast
  qed
qed

lemma includes_str_count:
  assumes "includes_str s t"
  shows "count_list t x \<le> count_list s x"
proof -
  from assms obtain pre post where "s = pre @ t @ post"
    using includes_str_decomp by blast
  then show ?thesis by simp
qed

text \<open>Each component pattern has two slashes, so a path it matches has two as well.\<close>

lemma isComponent_two_slashes:
  assumes "isComponent fileName filePath"
  shows "2 \<le> count_list filePath CHR ''/''"
proof -
  from assms obtain t where t: "t \<in> set (concat componentPatterns)"
      and inc: "includes_str (ascii_lower filePath) t"
    by (auto simp: isComponent_def test_contains_def list_ex_iff)
  from t have "count_list t CHR ''/'' = 2"
    by (auto simp: componentPatterns_def)
  with includes_str_count [OF inc, of "CHR ''/''"] show ?thesis
    by (simp add: count_slash_ascii_lower)
qed

text \<open>
  Claim C9. A file directly under a top-level directory has a path \<open>dir/file\<close> with a
  single slash (paths are relative to the root and have no leading slash). Every
  component pattern needs a slash before and after the directory keyword, so
  \<open>isComponent\<close> is false on such a path, whatever the directory is called
  (\<open>components\<close>, \<open>ui\<close>, \<open>widgets\<close> and \<open>shared\<close> among them) and whatever the
  file name is; the nested path \<open>src/components/Button.tsx\<close> is a component.
\<close>

theorem isComponent_top_level_directory:
  assumes "CHR ''/'' \<notin> set dir" and "CHR ''/'' \<notin> set file"
  shows "\<not> isComponent fileName (dir @ ''/'' @ file) \<and>
         isComponent ''Button.tsx'' ''src/components/Button.tsx''"
proof
  show "\<not> isComponent fileName (dir @ ''/'' @ file)"
  proof
    assume "isComponent fileName (dir @ ''/'' @ file)"
    then have "2 \<le> count_list (dir @ ''/'' @ file) CHR ''/''"
      by (rule isComponent_two_slashes)
    with assms show False by (simp add: count_list_0_iff)
  qed
  show "isComponent ''Button.tsx'' ''src/components/Button.tsx''"
    by code_simp
qed

text \<open>The four directories of the claim, with \<open>Button.tsx\<close> directly under each.\<close>

theorem isComponent_top_level_directory_witness:
  "\<not> isComponent ''Button.tsx'' ''components/Button.tsx'' \<and>
   \<not> isComponent ''Button.tsx'' ''ui/Button.tsx'' \<and>
   \<not> isComponent ''Button.tsx'' ''widgets/Button.tsx'' \<and>
   \<not> isComponent ''Button.tsx'' ''shared/Button.tsx'' \<and>
   isComponent ''Button.tsx'' ''src/components/Button.tsx''"
  using isComponent_top_level_directory [of "''components''" "''Button.tsx''" "''Button.tsx''"]
    isComponent_top_level_directory [of "''ui''" "''Button.tsx''" "''Button.tsx''"]
    isComponent_top_level_directory [of "''widgets''" "''Button.tsx''" "''Button.tsx''"]
    isComponent_top_level_directory [of "''shared''" "''Button.tsx''" "''Button.tsx''"]
  by simp

section \<open>Properties of the aggregator\<close>

lemma countFiles_totalFiles:
  "totalFiles (countFiles t st) = totalFiles st + length (file_nodes t)"
  by (induction t st rule: countFiles.induct) (simp_all add: Let_def)

lemma countFiles_components:
  "components (countFiles t st) =
     components st + length (filter (\<lambda>n. isComponent (node_name n) (node_path n)) (file_nodes t))"
  by (induction t st rule: countFiles.induct) (simp_all add: Let_def)

lemma countFiles_pages:
  "pages (countFiles t st) =
     pages st + length (filter (\<lambda>n. isPage (node_name n) (node_path n)) (file_nodes t))"
  by (induction t st rule: countFiles.induct) (simp_all add: Let_def)

text \<open>
  Claim C6. For every tree, \<open>totalFiles\<close> of \<open>analyzeProjectStats\<close> is the number of
  file nodes at any depth of the tree, and neither \<open>components\<close> nor \<open>pages\<close> exceeds
  it: each counts the file nodes that its classifier accepts.
\<close>

theorem analyzeProjectStats_counts:
  "totalFiles (analyzeProjectStats tree) = length (file_nodes tree) \<and>
   components (analyzeProjectStats tree) =
     length (filter (\<lambda>n. isComponent (node_name n) (node_path n)) (file_nodes tree)) \<and>
   pages (analyzeProjectStats tree) =
     length (filter (\<lambda>n. isPage (node_name n) (node_path n)) (file_nodes tree)) \<and>
   components (analyzeProjectStats tree) \<le> totalFiles (analyzeProjectStats tree) \<and>
   pages (analyzeProjectStats tree) \<le> totalFiles (analyzeProjectStats tree)"
  by (simp add: analyzeProjectStats_def countFiles_totalFiles countFiles_components
      countFiles_pages)

text \<open>
  Claim C10. The two classifications are not exclusive: the file
  \<open>src/components/HomePage.tsx\<close> is a component (extension \<open>.tsx\<close>, path with
  \<open>/components/\<close>) and a page (its name contains \<open>page\<close>), the aggregator counts it
  in both counters, and \<open>components + pages\<close> is 2 for 1 file.
\<close>

theorem component_and_page_overlap:
  "isComponent ''HomePage.tsx'' ''src/components/HomePage.tsx'' \<and>
   isPage ''HomePage.tsx'' ''src/components/HomePage.tsx'' \<and>
   analyzeProjectStats [FileNode ''HomePage.tsx'' ''src/components/HomePage.tsx'' 120] =
     \<lparr>totalFiles = 1, components = 1, pages = 1\<rparr> \<and>
   totalFiles (analyzeProjectStats [FileNode ''HomePage.tsx'' ''src/components/HomePage.tsx'' 120])
     < components (analyzeProjectStats [FileNode ''HomePage.tsx'' ''src/components/HomePage.tsx'' 120])
       + pages (analyzeProjectStats [FileNode ''HomePage.tsx'' ''src/components/HomePage.tsx'' 120])"
proof -
  have c: "isComponent ''HomePage.tsx'' ''src/components/HomePage.tsx''"
    by code_simp
  have p: "isPage ''HomePage.tsx'' ''src/components/HomePage.tsx''"
    by code_simp
  from c p show ?thesis by (simp add: analyzeProjectStats_def)
qed

section \<open>Properties of the tree walker\<close>


lemma walk_beyond_depth:
  "3 < depth \<Longrightarrow> analyzeFileStructure h owner repo path depth = ([], [])"
  by (simp add: analyzeFileStructure.simps)

text \<open>
  A listing request that gives no listing gives no nodes; one that gives a listing
  gives what each of its entries contributes, in the order of the listing.
\<close>

lemma walk_failed_listing:
  assumes "\<forall>contents. fetch_listing h (contents_url owner repo path) \<noteq> Body contents"
  shows "fst (analyzeFileStructure h owner repo path depth) = []"
  using assms
  by (subst analyzeFileStructure.simps) (simp split: response.splits)

lemma walk_listing:
  assumes "depth \<le> 3"
    and "fetch_listing h (contents_url owner repo path) = Body contents"
  shows "fst (analyzeFileStructure h owner repo path depth) =
           concat (map (entry_nodes h owner repo depth) contents)"
proof -
  have "fst (analyzeFileStructure h owner repo path depth) =
      concat (map (\<lambda>item. fst
           (if entry_type item = ''file''
            then ([FileNode (entry_name item) (entry_path item) (entry_size item)], [])
            else if entry_type item = ''dir'' \<and> \<not> startsWith (entry_name item) ''.'' \<and>
                    entry_name item \<noteq> ''node_modules''
            then (let sub = analyzeFileStructure h owner repo (entry_path item) (depth + 1)
                  in ([DirNode (entry_name item) (entry_path item) (fst sub)], snd sub))
            else ([], []))) contents)"
    using assms
    by (subst analyzeFileStructure.simps) (simp add: Let_def comp_def)
  also have "\<dots> = concat (map (entry_nodes h owner repo depth) contents)"
    by (rule arg_cong [where f = concat], rule map_cong) (simp_all add: entry_nodes_def Let_def)
  finally show ?thesis .
qed

text \<open>The children of a directory node are what the walker returned one level deeper.\<close>

lemma walk_dir_children:
  assumes "DirNode nm p cs \<in> set (fst (analyzeFileStructure h owner repo path depth))"
  shows "\<exists>q. cs = fst (analyzeFileStructure h owner repo q (depth + 1))"
  using assms
  by (subst (asm) analyzeFileStructure.simps)
     (auto simp: Let_def split: if_splits response.splits)

lemma nodes_at_level_Nil: "nodes_at_level k [] = []"
  by (induction k "[] :: node list" rule: nodes_at_level.induct) simp_all

lemma nodes_at_level_append:
  "nodes_at_level k (xs @ ys) = nodes_at_level k xs @ nodes_at_level k ys"
  by (induction k xs arbitrary: ys rule: nodes_at_level.induct) simp_all

lemma nodes_at_level_concat:
  "nodes_at_level k (concat xss) = concat (map (nodes_at_level k) xss)"
  by (induction xss) (simp_all add: nodes_at_level_Nil nodes_at_level_append)

lemma level_children_empty:
  assumes "DirNode nm p cs \<in>
      set (nodes_at_level k (fst (analyzeFileStructure h owner repo path depth)))"
    and "4 \<le> k + depth"
  shows "cs = []"
  using assms
proof (induction k arbitrary: path depth)
  case 0
  then show ?case by simp
next
  case (Suc k)
  show ?case
  proof (cases k)
    case 0
    with Suc.prems
    have "DirNode nm p cs \<in> set (fst (analyzeFileStructure h owner repo path depth))"
      by simp
    then obtain q where "cs = fst (analyzeFileStructure h owner repo q (depth + 1))"
      using walk_dir_children by blast
    moreover from 0 Suc.prems have "3 < depth + 1" by simp
    ultimately show ?thesis by (simp add: walk_beyond_depth)
  next
    case (Suc j)
    with Suc.prems(1) obtain n
      where n: "n \<in> set (fst (analyzeFileStructure h owner repo path depth))"
        and m: "DirNode nm p cs \<in> set (nodes_at_level k (child_nodes n))"
      by (auto simp: nodes_at_level_concat)
    show ?thesis
    proof (cases n)
      case (FileNode a b c)
      with m show ?thesis by (simp add: nodes_at_level_Nil)
    next
      case (DirNode a b ds)
      with n obtain q where "ds = fst (analyzeFileStructure h owner repo q (depth + 1))"
        using walk_dir_children by blast
      with m DirNode Suc.IH [of q "depth + 1"] Suc.prems(2) show ?thesis by simp
    qed
  qed
qed

lemma levels_beyond_empty:
  assumes "5 \<le> k + depth"
  shows "nodes_at_level k (fst (analyzeFileStructure h owner repo path depth)) = []"
  using assms
proof (induction k arbitrary: path depth)
  case 0
  then show ?case by simp
next
  case (Suc k)
  show ?case
  proof (cases k)
    case 0
    with Suc.prems show ?thesis by (simp add: walk_beyond_depth)
  next
    case (Suc j)
    have "nodes_at_level k (child_nodes n) = []"
      if n: "n \<in> set (fst (analyzeFileStructure h owner repo path depth))" for n
    proof (cases n)
      case (FileNode a b c)
      then show ?thesis by (simp add: nodes_at_level_Nil)
    next
      case (DirNode a b ds)
      with n obtain q where "ds = fst (analyzeFileStructure h owner repo q (depth + 1))"
        using walk_dir_children by blast
      with DirNode Suc.IH [of "depth + 1" q] Suc.prems show ?thesis by simp
    qed
    with Suc show ?thesis by (simp add: nodes_at_level_concat)
  qed
qed

lemma all_nodes_append: "all_nodes (xs @ ys) = all_nodes xs @ all_nodes ys"
  by (induction xs rule: all_nodes.induct) simp_all

lemma set_all_nodes_concat:
  "set (all_nodes (concat xss)) = (\<Union>xs \<in> set xss. set (all_nodes xs))"
  by (induction xss) (simp_all add: all_nodes_append)

text \<open>No directory node of the tree, at any depth, has a name that the guard rejects.\<close>

lemma walk_no_excluded:
  "DirNode nm p cs \<in> set (all_nodes (fst (analyzeFileStructure h owner repo path depth))) \<Longrightarrow>
     \<not> startsWith nm ''.'' \<and> nm \<noteq> ''node_modules''"
proof (induction h owner repo path depth arbitrary: nm p cs rule: analyzeFileStructure.induct)
  case (1 h owner repo path depth)
  show ?case
  proof (cases "3 < depth")
    case True
    with "1.prems" show ?thesis by (simp add: walk_beyond_depth)
  next
    case False
    show ?thesis
    proof (cases "fetch_listing h (contents_url owner repo path)")
      case (Body contents)
      with False "1.prems" obtain item where item: "item \<in> set contents"
        and mem: "DirNode nm p cs \<in> set (all_nodes (fst
           (if entry_type item = ''file''
            then ([FileNode (entry_name item) (entry_path item) (entry_size item)], [])
            else if entry_type item = ''dir'' \<and> \<not> startsWith (entry_name item) ''.'' \<and>
                    entry_name item \<noteq> ''node_modules''
            then (let sub = analyzeFileStructure h owner repo (entry_path item) (depth + 1)
                  in ([DirNode (entry_name item) (entry_path item) (fst sub)], snd sub))
            else ([], []))))"
        by (subst (asm) analyzeFileStructure.simps)
           (auto simp: Let_def set_all_nodes_concat simp del: all_nodes.simps)
      show ?thesis
      proof (cases "entry_type item = ''file''")
        case True
        with mem show ?thesis by simp
      next
        case nf: False
        show ?thesis
        proof (cases "entry_type item = ''dir'' \<and> \<not> startsWith (entry_name item) ''.'' \<and>
                    entry_name item \<noteq> ''node_modules''")
          case True
          with nf mem have "DirNode nm p cs = DirNode (entry_name item) (entry_path item)
                (fst (analyzeFileStructure h owner repo (entry_path item) (depth + 1))) \<or>
              DirNode nm p cs \<in> set (all_nodes
                (fst (analyzeFileStructure h owner repo (entry_path item) (depth + 1))))"
            by (simp add: Let_def)
          then show ?thesis
          proof
            assume "DirNode nm p cs = DirNode (entry_name item) (entry_path item)
                (fst (analyzeFileStructure h owner repo (entry_path item) (depth + 1)))"
            with True show ?thesis by simp
          next
            assume "DirNode nm p cs \<in> set (all_nodes
                (fst (analyzeFileStructure h owner repo (entry_path item) (depth + 1))))"
            with "1.IH" [OF False Body item nf True] show ?thesis by simp
          qed
        next
          case False
          with nf mem show ?thesis by simp
        qed
      qed
    qed (use False "1.prems" in \<open>simp_all add: analyzeFileStructure.simps\<close>)
  qed
qed

lemma concat_map_filter_empty:
  assumes "\<And>x. x \<in> set xs \<Longrightarrow> \<not> P x \<Longrightarrow> g x = []"
    and "\<And>x. x \<in> set xs \<Longrightarrow> P x \<Longrightarrow> g' x = g x"
  shows "concat (map g' (filter P xs)) = concat (map g xs)"
  using assms by (induction xs) auto

lemma fetch_listing_without_excluded:
  "fetch_listing (without_excluded h) url =
     (case fetch_listing h url of
        Body contents \<Rightarrow> Body (filter (\<lambda>item. \<not> excluded_dir item) contents)
      | r \<Rightarrow> r)"
  by (simp add: without_excluded_def)

text \<open>
  The nodes and the requests of the walker are those it has on a host that never
  lists an entry the guard rejects.
\<close>

lemma walk_without_excluded:
  "analyzeFileStructure (without_excluded h) owner repo path depth =
   analyzeFileStructure h owner repo path depth"
proof (induction h owner repo path depth rule: analyzeFileStructure.induct)
  case (1 h owner repo path depth)
  show ?case
  proof (cases "3 < depth")
    case True
    then show ?thesis by (simp add: walk_beyond_depth)
  next
    case False
    define f where "f = (\<lambda>hh item.
        if entry_type item = ''file''
        then ([FileNode (entry_name item) (entry_path item) (entry_size item)], [])
        else if entry_type item = ''dir'' \<and> \<not> startsWith (entry_name item) ''.'' \<and>
                entry_name item \<noteq> ''node_modules''
        then (let sub = analyzeFileStructure hh owner repo (entry_path item) (depth + 1)
              in ([DirNode (entry_name item) (entry_path item) (fst sub)], snd sub))
        else ([], []))"
    have unfold: "analyzeFileStructure hh owner repo path depth =
        (case fetch_listing hh (contents_url owner repo path) of
           Body contents \<Rightarrow>
             (concat (map (fst \<circ> f hh) contents),
              contents_url owner repo path # concat (map (snd \<circ> f hh) contents))
         | _ \<Rightarrow> ([], [contents_url owner repo path]))" for hh
      using False
      by (subst analyzeFileStructure.simps)
         (simp add: f_def Let_def comp_def split: response.splits)
    show ?thesis
    proof (cases "fetch_listing h (contents_url owner repo path)")
      case (Body contents)
      have excl: "f hh item = ([], [])" if "excluded_dir item" for hh item
        using that by (auto simp: f_def excluded_dir_def)
      have keep: "f (without_excluded h) item = f h item"
        if "item \<in> set contents" and "\<not> excluded_dir item" for item
      proof (cases "entry_type item \<noteq> ''file'' \<and> entry_type item = ''dir'' \<and>
          \<not> startsWith (entry_name item) ''.'' \<and> entry_name item \<noteq> ''node_modules''")
        case True
        then have "analyzeFileStructure (without_excluded h) owner repo (entry_path item) (depth + 1) =
            analyzeFileStructure h owner repo (entry_path item) (depth + 1)"
          using "1.IH" [OF False Body that(1)] by simp
        then show ?thesis by (simp add: f_def)
      next
        case False
        then show ?thesis by (auto simp: f_def)
      qed
      have a: "concat (map (fst \<circ> f (without_excluded h))
                 (filter (\<lambda>item. \<not> excluded_dir item) contents)) =
               concat (map (fst \<circ> f h) contents)"
        by (rule concat_map_filter_empty) (simp_all add: excl keep)
      have b: "concat (map (snd \<circ> f (without_excluded h))
                 (filter (\<lambda>item. \<not> excluded_dir item) contents)) =
               concat (map (snd \<circ> f h) contents)"
        by (rule concat_map_filter_empty) (simp_all add: excl keep)
      from Body a b show ?thesis
        by (simp add: unfold fetch_listing_without_excluded)
    qed (simp_all add: unfold fetch_listing_without_excluded)
  qed
qed

text \<open>
  Claim C2, as the code has it. The walker never descends into a directory whose name
  starts with \<open>.\<close> or is \<open>node_modules\<close>, and such an entry of a listing is dropped:
  no directory node of the tree, at any depth, has such a name, and the tree and the
  requests made are those of a host that does not list such entries at all.
\<close>

theorem walk_drops_excluded_directories:
  "(\<forall>nm p cs. DirNode nm p cs \<in>
        set (all_nodes (fst (analyzeFileStructure h owner repo path depth))) \<longrightarrow>
      \<not> startsWith nm ''.'' \<and> nm \<noteq> ''node_modules'') \<and>
   analyzeFileStructure (without_excluded h) owner repo path depth =
     analyzeFileStructure h owner repo path depth"
  using walk_no_excluded walk_without_excluded by blast

theorem walk_drops_excluded_directories_witness:
  "DirNode ''src'' ''src'' [FileNode ''main.ts'' ''src/main.ts'' 11] \<in>
     set (all_nodes (fst (analyzeFileStructure mixed_host ''acme'' ''widgets'' [] 0))) \<and>
   \<not> startsWith ''src'' ''.'' \<and> ''src'' \<noteq> ''node_modules''"
proof -
  have "DirNode ''src'' ''src'' [FileNode ''main.ts'' ''src/main.ts'' 11] \<in>
     set (all_nodes (fst (analyzeFileStructure mixed_host ''acme'' ''widgets'' [] 0)))"
    by code_simp
  with walk_drops_excluded_directories [of mixed_host "''acme''" "''widgets''" "[]" 0]
  show ?thesis by blast
qed

text \<open>
  Against C2 as stated: the host lists \<open>node_modules\<close> and \<open>.github\<close> at the root,
  and neither appears in the output, with or without children; only the file and the
  plain directory do, and only the root and \<open>src\<close> are requested.
\<close>

theorem walk_excluded_not_listed:
  "fetch_listing mixed_host (contents_url ''acme'' ''widgets'' []) =
     Body [Entry ''node_modules'' ''node_modules'' ''dir'' 0,
           Entry ''.github'' ''.github'' ''dir'' 0,
           Entry ''index.ts'' ''index.ts'' ''file'' 7,
           Entry ''src'' ''src'' ''dir'' 0] \<and>
   analyzeFileStructure mixed_host ''acme'' ''widgets'' [] 0 =
     ([FileNode ''index.ts'' ''index.ts'' 7,
       DirNode ''src'' ''src'' [FileNode ''main.ts'' ''src/main.ts'' 11]],
      [''https://api.github.com/repos/acme/widgets/contents/'',
       ''https://api.github.com/repos/acme/widgets/contents/src'']) \<and>
   DirNode ''node_modules'' ''node_modules'' [] \<notin>
     set (fst (analyzeFileStructure mixed_host ''acme'' ''widgets'' [] 0))"
  by code_simp

text \<open>
  Claim C4. The walker returns the empty sequence, without a request, once its depth
  exceeds 3. So in the tree of a walk from depth 0 every directory node at nesting
  level 4 (level 1 being the entries of the root) has no children, whatever the host
  would list for it, and there is no node at level 5.
\<close>

theorem walk_depth_bound:
  "(\<forall>d. 3 < d \<longrightarrow> analyzeFileStructure h owner repo path d = ([], [])) \<and>
   (\<forall>nm p cs. DirNode nm p cs \<in>
        set (nodes_at_level 4 (fst (analyzeFileStructure h owner repo path 0))) \<longrightarrow> cs = []) \<and>
   nodes_at_level 5 (fst (analyzeFileStructure h owner repo path 0)) = []"
proof (intro conjI allI impI)
  fix d :: nat
  assume "3 < d"
  then show "analyzeFileStructure h owner repo path d = ([], [])"
    by (rule walk_beyond_depth)
next
  fix nm p cs
  assume "DirNode nm p cs \<in> set (nodes_at_level 4 (fst (analyzeFileStructure h owner repo path 0)))"
  then show "cs = []" by (rule level_children_empty) simp
next
  show "nodes_at_level 5 (fst (analyzeFileStructure h owner repo path 0)) = []"
    by (rule levels_beyond_empty) simp
qed

theorem walk_depth_bound_witness:
  "nodes_at_level 4 (fst (analyzeFileStructure deep_host ''acme'' ''widgets'' [] 0)) =
     [DirNode ''d'' ''a/b/c/d'' []] \<and>
   fetch_listing deep_host (contents_url ''acme'' ''widgets'' ''a/b/c/d'') =
     Body [Entry ''f.ts'' ''a/b/c/d/f.ts'' ''file'' 1] \<and>
   analyzeFileStructure deep_host ''acme'' ''widgets'' ''a/b/c/d'' 4 = ([], [])"
proof -
  have b: "fetch_listing deep_host (contents_url ''acme'' ''widgets'' ''a/b/c/d'') =
     Body [Entry ''f.ts'' ''a/b/c/d/f.ts'' ''file'' 1]"
    by code_simp
  have e: "nodes_at_level 4 (fst (analyzeFileStructure deep_host ''acme'' ''widgets'' [] 0)) =
     [DirNode ''d'' ''a/b/c/d'' []]"
    by code_simp
  from e b walk_depth_bound [of deep_host "''acme''" "''widgets''" "''a/b/c/d''"]
  show ?thesis by simp
qed

section \<open>Properties of the sampler\<close>

lemma candidates_simps:
  "candidates [] = []"
  "candidates (FileNode name path sz # files) =
     (if is_target name then FileNode name path sz # candidates files else candidates files)"
  "candidates (DirNode name path cs # files) = candidates cs @ candidates files"
  by (simp_all add: candidates_def)

text \<open>
  \<open>findAndFetchFiles\<close> requests every candidate, in pre-order, and appends the sample
  of each one whose content the host gives.
\<close>

lemma findAndFetchFiles_eq:
  "findAndFetchFiles h owner repo tree st =
     (fst st @ map (sample_of h owner repo) (filter (fetched h owner repo) (candidates tree)),
      snd st @ map (\<lambda>n. contents_url owner repo (node_path n)) (candidates tree))"
proof (induction h owner repo tree st rule: findAndFetchFiles.induct)
  case (1 h owner repo st)
  then show ?case by (simp add: candidates_simps)
next
  case (2 h owner repo name path sz files st)
  then show ?case
    by (cases "fetch_file h (contents_url owner repo path)")
       (simp_all add: candidates_simps fetched_def sample_of_def)
next
  case (3 h owner repo name path cs files st)
  then show ?case by (simp add: candidates_simps)
qed

lemma take_filter_all:
  "list_all P (take n xs) \<Longrightarrow> take n (filter P xs) = take n xs"
proof (induction xs arbitrary: n)
  case Nil
  then show ?case by simp
next
  case (Cons x xs)
  then show ?case by (cases n) simp_all
qed

text \<open>
  Claim C5, as the code has it. \<open>getSampleFiles\<close> returns at most 5 samples. Its
  candidates are the file nodes whose name contains one of the five target names, it
  requests each of them, in pre-order, and its result is the first 5 candidates, in
  pre-order, whose content the host gives. When the host gives the content of the first
  5 candidates, these are the result.
\<close>

theorem getSampleFiles_first_five_fetched:
  "length (fst (getSampleFiles h owner repo tree)) \<le> 5 \<and>
   candidates tree =
     filter (\<lambda>n. list_ex (\<lambda>target. includes_str (node_name n) target)
                   [''package.json'', ''README.md'', ''tsconfig.json'', ''next.config.js'',
                    ''vite.config.ts''])
       (file_nodes tree) \<and>
   fst (getSampleFiles h owner repo tree) =
     take 5 (map (sample_of h owner repo) (filter (fetched h owner repo) (candidates tree))) \<and>
   snd (getSampleFiles h owner repo tree) =
     map (\<lambda>n. contents_url owner repo (node_path n)) (candidates tree) \<and>
   (list_all (fetched h owner repo) (take 5 (candidates tree)) \<longrightarrow>
      map sample_path (fst (getSampleFiles h owner repo tree)) =
        map node_path (take 5 (candidates tree)))"
proof -
  have c: "candidates tree =
     filter (\<lambda>n. list_ex (\<lambda>target. includes_str (node_name n) target)
                   [''package.json'', ''README.md'', ''tsconfig.json'', ''next.config.js'',
                    ''vite.config.ts''])
       (file_nodes tree)"
    unfolding candidates_def is_target_def targetFiles_def by (rule refl)
  have f: "fst (getSampleFiles h owner repo tree) =
     take 5 (map (sample_of h owner repo) (filter (fetched h owner repo) (candidates tree)))"
    by (simp add: getSampleFiles_def Let_def findAndFetchFiles_eq)
  have s: "snd (getSampleFiles h owner repo tree) =
     map (\<lambda>n. contents_url owner repo (node_path n)) (candidates tree)"
    by (simp add: getSampleFiles_def Let_def findAndFetchFiles_eq)
  have p: "map sample_path (fst (getSampleFiles h owner repo tree)) =
        map node_path (take 5 (candidates tree))"
    if "list_all (fetched h owner repo) (take 5 (candidates tree))"
  proof -
    have "map sample_path (fst (getSampleFiles h owner repo tree)) =
        map node_path (take 5 (filter (fetched h owner repo) (candidates tree)))"
      by (simp add: f take_map sample_of_def comp_def)
    with that show ?thesis by (simp add: take_filter_all)
  qed
  have l: "length (fst (getSampleFiles h owner repo tree)) \<le> 5"
    by (simp add: f)
  from l c f s p show ?thesis by blast
qed

text \<open>Seven candidates, all given by the host: the result is the first five.\<close>

theorem getSampleFiles_first_five_fetched_witness:
  "list_all (fetched (file_host []) ''acme'' ''widgets'') (take 5 (candidates seven_candidates)) \<and>
   map sample_path (fst (getSampleFiles (file_host []) ''acme'' ''widgets'' seven_candidates)) =
     [''package.json'', ''README.md'', ''web/package.json'', ''web/tsconfig.json'',
      ''web/vite.config.ts'']"
proof -
  have a: "list_all (fetched (file_host []) ''acme'' ''widgets'')
      (take 5 (candidates seven_candidates))"
    by code_simp
  have b: "map node_path (take 5 (candidates seven_candidates)) =
      [''package.json'', ''README.md'', ''web/package.json'', ''web/tsconfig.json'',
       ''web/vite.config.ts'']"
    by code_simp
  from a getSampleFiles_first_five_fetched
         [of "file_host []" "''acme''" "''widgets''" seven_candidates]
  have "map sample_path (fst (getSampleFiles (file_host []) ''acme'' ''widgets'' seven_candidates)) =
      map node_path (take 5 (candidates seven_candidates))"
    by blast
  with a b show ?thesis by (simp only: simp_thms)
qed

text \<open>
  Against C5 as stated: the tree has seven candidates and the request for the first
  one fails, so the result is the candidates 2 to 6, not the first five.
\<close>

theorem getSampleFiles_skips_failed_fetch:
  "map node_path (candidates seven_candidates) =
     [''package.json'', ''README.md'', ''web/package.json'', ''web/tsconfig.json'',
      ''web/vite.config.ts'', ''tsconfig.json'', ''next.config.js''] \<and>
   fetch_file (file_host [contents_url ''acme'' ''widgets'' ''package.json''])
     (contents_url ''acme'' ''widgets'' ''package.json'') = NotOk \<and>
   map sample_path
     (fst (getSampleFiles (file_host [contents_url ''acme'' ''widgets'' ''package.json''])
        ''acme'' ''widgets'' seven_candidates)) =
     [''README.md'', ''web/package.json'', ''web/tsconfig.json'',
      ''web/vite.config.ts'', ''tsconfig.json'']"
  by code_simp

section \<open>Properties of the snapshot builder\<close>

lemma startsWith_append: "startsWith s t \<Longrightarrow> length t = n \<Longrightarrow> s = t @ drop n s"
  unfolding startsWith_def by (metis append_take_drop_id)

lemma dropWhile_slash_Cons:
  assumes "dropWhile (\<lambda>x. x \<noteq> CHR ''/'') s \<noteq> []"
  obtains rest where "dropWhile (\<lambda>x. x \<noteq> CHR ''/'') s = CHR ''/'' # rest"
proof (cases "dropWhile (\<lambda>x. x \<noteq> CHR ''/'') s")
  case Nil
  with assms show ?thesis by simp
next
  case (Cons a as)
  with hd_dropWhile [OF assms] have "a = CHR ''/''" by simp
  with Cons that show ?thesis by simp
qed

lemma match_repo_url_Some:
  "match_repo_url url = Some (owner, repo) \<Longrightarrow>
     \<exists>pre post. url = pre @ ''github.com/'' @ owner @ ''/'' @ repo @ post \<and>
        owner \<noteq> [] \<and> repo \<noteq> [] \<and> CHR ''/'' \<notin> set owner \<and> CHR ''/'' \<notin> set repo \<and>
        (post = [] \<or> hd post = CHR ''/'')"
proof (induction url)
  case Nil
  then show ?case by simp
next
  case (Cons c cs)
  define rest where "rest = drop 11 (c # cs)"
  define o' where "o' = takeWhile (\<lambda>x. x \<noteq> CHR ''/'') rest"
  define rest2 where "rest2 = dropWhile (\<lambda>x. x \<noteq> CHR ''/'') rest"
  define r' where "r' = takeWhile (\<lambda>x. x \<noteq> CHR ''/'') (drop 1 rest2)"
  define post where "post = dropWhile (\<lambda>x. x \<noteq> CHR ''/'') (drop 1 rest2)"
  show ?case
  proof (cases "startsWith (c # cs) ''github.com/'' \<and> o' \<noteq> [] \<and> rest2 \<noteq> [] \<and> r' \<noteq> []")
    case True
    with Cons.prems have eq: "owner = o'" "repo = r'"
      by (simp_all add: Let_def rest_def o'_def rest2_def r'_def)
    from True have "startsWith (c # cs) ''github.com/''" by blast
    then have u: "c # cs = ''github.com/'' @ rest"
      unfolding rest_def by (rule startsWith_append) simp
    have r: "rest = o' @ rest2"
      by (simp add: o'_def rest2_def)
    from True obtain tl2 where t: "rest2 = CHR ''/'' # tl2"
      unfolding rest2_def by (elim conjE dropWhile_slash_Cons)
    then have "tl2 = r' @ post"
      by (simp add: r'_def post_def)
    with u r t have "c # cs = [] @ ''github.com/'' @ o' @ ''/'' @ r' @ post"
      by simp
    moreover have "CHR ''/'' \<notin> set o'" "CHR ''/'' \<notin> set r'"
      unfolding o'_def r'_def by (auto dest: set_takeWhileD)
    moreover have "post = [] \<or> hd post = CHR ''/''"
      unfolding post_def using hd_dropWhile [of "\<lambda>x. x \<noteq> CHR ''/''"] by blast
    ultimately show ?thesis using True eq by blast
  next
    case False
    with Cons.prems have "match_repo_url cs = Some (owner, repo)"
      by (auto simp: Let_def rest_def o'_def rest2_def r'_def split: if_splits)
    with Cons.IH obtain pre post where "cs = pre @ ''github.com/'' @ owner @ ''/'' @ repo @ post"
      and rest: "owner \<noteq> []" "repo \<noteq> []" "CHR ''/'' \<notin> set owner" "CHR ''/'' \<notin> set repo"
        "post = [] \<or> hd post = CHR ''/''"
      by blast
    then have "c # cs = (c # pre) @ ''github.com/'' @ owner @ ''/'' @ repo @ post"
      by simp
    with rest show ?thesis by blast
  qed
qed

lemma match_repo_url_matches:
  assumes "owner \<noteq> []" "repo \<noteq> []" "CHR ''/'' \<notin> set owner" "CHR ''/'' \<notin> set repo"
  shows "match_repo_url (pre @ ''github.com/'' @ owner @ ''/'' @ repo @ post) \<noteq> None"
proof (induction pre)
  case Nil
  have ns: "x \<noteq> CHR ''/''" if "x \<in> set owner" for x
    using that assms(3) by auto
  have t1: "takeWhile (\<lambda>x. x \<noteq> CHR ''/'') (owner @ ''/'' @ repo @ post) = owner"
    by (simp add: takeWhile_append2 ns)
  have t2: "dropWhile (\<lambda>x. x \<noteq> CHR ''/'') (owner @ ''/'' @ repo @ post) = ''/'' @ repo @ post"
    by (simp add: dropWhile_append2 ns)
  from assms(2) obtain x xs where r: "repo = x # xs" by (cases repo) auto
  with assms(4) have "takeWhile (\<lambda>x. x \<noteq> CHR ''/'') (repo @ post) \<noteq> []"
    by auto
  with t1 t2 assms(1) show ?case
    by (simp add: startsWith_def Let_def)
next
  case (Cons p pre)
  then show ?case by (simp add: Let_def)
qed

lemma match_repo_url_None_iff:
  "match_repo_url url = None \<longleftrightarrow>
     \<not> (\<exists>pre owner repo post. url = pre @ ''github.com/'' @ owner @ ''/'' @ repo @ post \<and>
          owner \<noteq> [] \<and> repo \<noteq> [] \<and> CHR ''/'' \<notin> set owner \<and> CHR ''/'' \<notin> set repo)"
proof
  assume n: "match_repo_url url = None"
  show "\<not> (\<exists>pre owner repo post. url = pre @ ''github.com/'' @ owner @ ''/'' @ repo @ post \<and>
          owner \<noteq> [] \<and> repo \<noteq> [] \<and> CHR ''/'' \<notin> set owner \<and> CHR ''/'' \<notin> set repo)"
    using n match_repo_url_matches by blast
next
  assume a: "\<not> (\<exists>pre owner repo post. url = pre @ ''github.com/'' @ owner @ ''/'' @ repo @ post \<and>
          owner \<noteq> [] \<and> repo \<noteq> [] \<and> CHR ''/'' \<notin> set owner \<and> CHR ''/'' \<notin> set repo)"
  show "match_repo_url url = None"
  proof (cases "match_repo_url url")
    case None
    then show ?thesis .
  next
    case (Some m)
    then obtain owner repo where "match_repo_url url = Some (owner, repo)"
      by (cases m) simp
    from match_repo_url_Some [OF this] a show ?thesis by blast
  qed
qed

lemma strip_git_suffix: "strip_git (r @ ''.git'') = r"
  by (simp add: strip_git_def endsWith_def)

lemma strip_git_other: "\<not> endsWith r ''.git'' \<Longrightarrow> strip_git r = r"
  by (simp add: strip_git_def)


lemma analyze_failed_not_InvalidUrl: "analyze_failed msg \<noteq> InvalidUrl"
  by (simp add: analyze_failed_def InvalidUrl_def)

text \<open>
  Claim C8. A URL that the pattern does not match (no \<open>github.com/\<close> followed by a
  non-empty owner without \<open>/\<close>, a \<open>/\<close>, and a non-empty repo without \<open>/\<close>) makes
  \<open>analyzeRepository\<close> fail with the error of an invalid URL, with no request made. On
  a match, owner and repo are the two runs after \<open>github.com/\<close>, the error is not the
  one of an invalid URL, and the first request goes to the repository of the owner and
  of the repo without a trailing \<open>.git\<close>.
  \<open>https://github.com/acme/widgets.git\<close> gives \<open>acme\<close> and \<open>widgets\<close>.
\<close>

theorem analyzeRepository_url:
  "(match_repo_url url = None \<longrightarrow> analyzeRepository h url = (Inl InvalidUrl, [])) \<and>
   (\<not> (\<exists>pre owner repo post. url = pre @ ''github.com/'' @ owner @ ''/'' @ repo @ post \<and>
          owner \<noteq> [] \<and> repo \<noteq> [] \<and> CHR ''/'' \<notin> set owner \<and> CHR ''/'' \<notin> set repo) \<longrightarrow>
      analyzeRepository h url = (Inl InvalidUrl, [])) \<and>
   (\<forall>owner repo. match_repo_url url = Some (owner, repo) \<longrightarrow>
      (\<exists>pre post. url = pre @ ''github.com/'' @ owner @ ''/'' @ repo @ post \<and>
         owner \<noteq> [] \<and> repo \<noteq> [] \<and> CHR ''/'' \<notin> set owner \<and> CHR ''/'' \<notin> set repo) \<and>
      fst (analyzeRepository h url) \<noteq> Inl InvalidUrl \<and>
      hd (snd (analyzeRepository h url)) =
        ''https://api.github.com/repos/'' @ owner @ ''/'' @ strip_git repo) \<and>
   strip_git (r @ ''.git'') = r \<and>
   (\<not> endsWith r ''.git'' \<longrightarrow> strip_git r = r) \<and>
   match_repo_url ''https://github.com/acme/widgets.git'' = Some (''acme'', ''widgets.git'') \<and>
   strip_git ''widgets.git'' = ''widgets''"
proof (intro conjI allI impI)
  assume "match_repo_url url = None"
  then show "analyzeRepository h url = (Inl InvalidUrl, [])"
    by (simp add: analyzeRepository_def InvalidUrl_def)
next
  assume "\<not> (\<exists>pre owner repo post. url = pre @ ''github.com/'' @ owner @ ''/'' @ repo @ post \<and>
          owner \<noteq> [] \<and> repo \<noteq> [] \<and> CHR ''/'' \<notin> set owner \<and> CHR ''/'' \<notin> set repo)"
  then have "match_repo_url url = None"
    by (simp add: match_repo_url_None_iff)
  then show "analyzeRepository h url = (Inl InvalidUrl, [])"
    by (simp add: analyzeRepository_def InvalidUrl_def)
next
  fix owner repo
  assume m: "match_repo_url url = Some (owner, repo)"
  from match_repo_url_Some [OF m]
  show "\<exists>pre post. url = pre @ ''github.com/'' @ owner @ ''/'' @ repo @ post \<and>
         owner \<noteq> [] \<and> repo \<noteq> [] \<and> CHR ''/'' \<notin> set owner \<and> CHR ''/'' \<notin> set repo"
    by blast
  from m show "fst (analyzeRepository h url) \<noteq> Inl InvalidUrl"
    by (simp add: analyzeRepository_def Let_def analyze_failed_not_InvalidUrl
        split: response.splits)
  from m show "hd (snd (analyzeRepository h url)) =
        ''https://api.github.com/repos/'' @ owner @ ''/'' @ strip_git repo"
    by (simp add: analyzeRepository_def Let_def repo_url_def split: response.splits)
next
  show "strip_git (r @ ''.git'') = r" by (rule strip_git_suffix)
  show "match_repo_url ''https://github.com/acme/widgets.git'' = Some (''acme'', ''widgets.git'')"
    by code_simp
  show "strip_git ''widgets.git'' = ''widgets''"
    by code_simp
next
  assume "\<not> endsWith r ''.git''"
  then show "strip_git r = r" by (rule strip_git_other)
qed

text \<open>A URL of another host, and the URL of the specification.\<close>

theorem analyzeRepository_url_witness:
  "match_repo_url ''https://gitlab.com/acme/widgets'' = None \<and>
   analyzeRepository (widgets_host (Body []) (Body [])) ''https://gitlab.com/acme/widgets'' =
     (Inl InvalidUrl, []) \<and>
   match_repo_url ''https://github.com/acme/widgets.git'' = Some (''acme'', ''widgets.git'') \<and>
   hd (snd (analyzeRepository (widgets_host (Body []) (Body []))
              ''https://github.com/acme/widgets.git'')) =
     ''https://api.github.com/repos/acme/widgets'' \<and>
   \<not> endsWith ''widgets'' ''.git'' \<and>
   strip_git ''widgets'' = ''widgets''"
proof -
  have e: "\<not> endsWith ''widgets'' ''.git''"
    by code_simp
  with analyzeRepository_url [of "[]" "widgets_host (Body []) (Body [])" "''widgets''"]
  have s: "strip_git ''widgets'' = ''widgets''"
    by blast
  have n: "match_repo_url ''https://gitlab.com/acme/widgets'' = None"
    by code_simp
  have m: "match_repo_url ''https://github.com/acme/widgets.git'' = Some (''acme'', ''widgets.git'')"
    by code_simp
  have g: "strip_git ''widgets.git'' = ''widgets''"
    by code_simp
  from n analyzeRepository_url
         [of "''https://gitlab.com/acme/widgets''" "widgets_host (Body []) (Body [])"]
  have a: "analyzeRepository (widgets_host (Body []) (Body [])) ''https://gitlab.com/acme/widgets'' =
     (Inl InvalidUrl, [])"
    by blast
  from m analyzeRepository_url
         [of "''https://github.com/acme/widgets.git''" "widgets_host (Body []) (Body [])"]
  have "hd (snd (analyzeRepository (widgets_host (Body []) (Body []))
              ''https://github.com/acme/widgets.git'')) =
     ''https://api.github.com/repos/'' @ ''acme'' @ ''/'' @ strip_git ''widgets.git''"
    by blast
  with g have b: "hd (snd (analyzeRepository (widgets_host (Body []) (Body []))
              ''https://github.com/acme/widgets.git'')) =
     ''https://api.github.com/repos/acme/widgets''"
    by simp
  from n a m b e s show ?thesis by (simp only: simp_thms)
qed

text \<open>
  Claim C3, as the code has it. \<open>analyzeRepository\<close> itself requests the listing of
  the root before the walk, and fails when that request fails. Once the metadata and
  this listing have been read and the request for the languages has not thrown, the
  snapshot is returned, whatever the host answers to the listing requests of the
  walker and to the content requests of the sampler, and it is complete: its tree is
  the walk from the root, its statistics and technologies are those of this tree, and
  its samples are the first five candidates of this tree whose content the host gives
  (a candidate whose request fails is skipped). In the walk a listing request that
  fails gives the empty sequence and nothing else changes: a listing that is given
  contributes the nodes of all its entries, in order, and a directory entry whose own
  listing fails is kept as a directory node without children, beside its siblings.
\<close>

theorem analyzeRepository_returns_snapshot:
  assumes "match_repo_url url = Some (owner, repo)"
    and "fetch_repo h (repo_url owner (strip_git repo)) = Body info"
    and "fetch_listing h (repo_url owner (strip_git repo) @ ''/contents'') = Body contents"
    and "fetch_languages h (repo_url owner (strip_git repo) @ ''/languages'') = NotOk \<or>
         fetch_languages h (repo_url owner (strip_git repo) @ ''/languages'') = Body keys"
  shows "(\<exists>d. fst (analyzeRepository h url) = Inr d \<and> repository d = info \<and>
           fileStructure d = fst (analyzeFileStructure h owner (strip_git repo) [] 0) \<and>
           sampleFiles d = fst (getSampleFiles h owner (strip_git repo) (fileStructure d)) \<and>
           sampleFiles d =
             take 5 (map (sample_of h owner (strip_git repo))
               (filter (fetched h owner (strip_git repo)) (candidates (fileStructure d)))) \<and>
           stats d = analyzeProjectStats (fileStructure d) \<and>
           technologies d = detectTechnologies (fileStructure d) (languages d) \<and>
           languages d =
             (case fetch_languages h (repo_url owner (strip_git repo) @ ''/languages'') of
                Body ks \<Rightarrow> ks | _ \<Rightarrow> [])) \<and>
         (\<forall>path depth.
            (\<forall>listing. fetch_listing h (contents_url owner (strip_git repo) path) \<noteq> Body listing) \<longrightarrow>
            fst (analyzeFileStructure h owner (strip_git repo) path depth) = []) \<and>
         (\<forall>path depth listing.
            depth \<le> 3 \<and> fetch_listing h (contents_url owner (strip_git repo) path) = Body listing \<longrightarrow>
            fst (analyzeFileStructure h owner (strip_git repo) path depth) =
              concat (map (entry_nodes h owner (strip_git repo) depth) listing)) \<and>
         (\<forall>depth item.
            entry_type item = ''dir'' \<and> \<not> startsWith (entry_name item) ''.'' \<and>
            entry_name item \<noteq> ''node_modules'' \<and>
            (\<forall>listing. fetch_listing h (contents_url owner (strip_git repo) (entry_path item)) \<noteq>
               Body listing) \<longrightarrow>
            entry_nodes h owner (strip_git repo) depth item =
              [DirNode (entry_name item) (entry_path item) []]) \<and>
         (\<forall>depth item.
            entry_type item = ''file'' \<longrightarrow>
            entry_nodes h owner (strip_git repo) depth item =
              [FileNode (entry_name item) (entry_path item) (entry_size item)])"
proof (intro conjI allI impI)
  from assms
  show "\<exists>d. fst (analyzeRepository h url) = Inr d \<and> repository d = info \<and>
           fileStructure d = fst (analyzeFileStructure h owner (strip_git repo) [] 0) \<and>
           sampleFiles d = fst (getSampleFiles h owner (strip_git repo) (fileStructure d)) \<and>
           sampleFiles d =
             take 5 (map (sample_of h owner (strip_git repo))
               (filter (fetched h owner (strip_git repo)) (candidates (fileStructure d)))) \<and>
           stats d = analyzeProjectStats (fileStructure d) \<and>
           technologies d = detectTechnologies (fileStructure d) (languages d) \<and>
           languages d =
             (case fetch_languages h (repo_url owner (strip_git repo) @ ''/languages'') of
                Body ks \<Rightarrow> ks | _ \<Rightarrow> [])"
    by (auto simp: analyzeRepository_def Let_def getSampleFiles_def findAndFetchFiles_eq)
next
  fix path and depth :: nat
  assume "\<forall>listing. fetch_listing h (contents_url owner (strip_git repo) path) \<noteq> Body listing"
  then show "fst (analyzeFileStructure h owner (strip_git repo) path depth) = []"
    by (rule walk_failed_listing)
next
  fix path and depth :: nat and listing
  assume "depth \<le> 3 \<and> fetch_listing h (contents_url owner (strip_git repo) path) = Body listing"
  then show "fst (analyzeFileStructure h owner (strip_git repo) path depth) =
              concat (map (entry_nodes h owner (strip_git repo) depth) listing)"
    by (simp add: walk_listing)
next
  fix depth :: nat and item
  assume "entry_type item = ''dir'' \<and> \<not> startsWith (entry_name item) ''.'' \<and>
            entry_name item \<noteq> ''node_modules'' \<and>
            (\<forall>listing. fetch_listing h (contents_url owner (strip_git repo) (entry_path item)) \<noteq>
               Body listing)"
  then show "entry_nodes h owner (strip_git repo) depth item =
              [DirNode (entry_name item) (entry_path item) []]"
    by (simp add: entry_nodes_def walk_failed_listing)
next
  fix depth :: nat and item
  assume "entry_type item = ''file''"
  then show "entry_nodes h owner (strip_git repo) depth item =
              [FileNode (entry_name item) (entry_path item) (entry_size item)]"
    by (simp add: entry_nodes_def)
qed

text \<open>
  On \<open>partial_host\<close> the listing of \<open>gone\<close> and the content of \<open>package.json\<close>
  fail: the snapshot keeps \<open>gone\<close> as a directory without children beside
  \<open>index.ts\<close>, \<open>src\<close> and the two candidates, and samples \<open>README.md\<close> only.
\<close>

theorem analyzeRepository_returns_snapshot_witness:
  "fetch_listing partial_host (contents_url ''acme'' ''widgets'' ''gone'') =
     Rejected ''Failed to fetch'' \<and>
   fetch_file partial_host (contents_url ''acme'' ''widgets'' ''package.json'') = NotOk \<and>
   (\<exists>d. fst (analyzeRepository partial_host ''https://github.com/acme/widgets'') = Inr d \<and>
        repository d = widgets_info \<and>
        fileStructure d =
          [FileNode ''index.ts'' ''index.ts'' 7,
           DirNode ''src'' ''src'' [FileNode ''main.ts'' ''src/main.ts'' 11],
           DirNode ''gone'' ''gone'' [],
           FileNode ''package.json'' ''package.json'' 300,
           FileNode ''README.md'' ''README.md'' 40] \<and>
        sampleFiles d = [\<lparr>sample_path = ''README.md'', sample_content = ''# Widgets''\<rparr>] \<and>
        stats d = \<lparr>totalFiles = 4, components = 0, pages = 0\<rparr>) \<and>
   entry_nodes partial_host ''acme'' ''widgets'' 0 (Entry ''gone'' ''gone'' ''dir'' 0) =
     [DirNode ''gone'' ''gone'' []]"
proof -
  have m: "match_repo_url ''https://github.com/acme/widgets'' = Some (''acme'', ''widgets'')"
    by code_simp
  have g: "strip_git ''widgets'' = ''widgets''"
    by code_simp
  have h1: "fetch_repo partial_host (repo_url ''acme'' (strip_git ''widgets'')) = Body widgets_info"
    by code_simp
  have h2: "fetch_listing partial_host (repo_url ''acme'' (strip_git ''widgets'') @ ''/contents'') =
      Body [Entry ''index.ts'' ''index.ts'' ''file'' 7,
            Entry ''src'' ''src'' ''dir'' 0,
            Entry ''gone'' ''gone'' ''dir'' 0,
            Entry ''package.json'' ''package.json'' ''file'' 300,
            Entry ''README.md'' ''README.md'' ''file'' 40]"
    by code_simp
  have h3: "fetch_languages partial_host
      (repo_url ''acme'' (strip_git ''widgets'') @ ''/languages'') = NotOk"
    by code_simp
  have r: "fetch_listing partial_host (contents_url ''acme'' ''widgets'' ''gone'') =
      Rejected ''Failed to fetch''"
    by code_simp
  have p: "fetch_file partial_host (contents_url ''acme'' ''widgets'' ''package.json'') = NotOk"
    by code_simp
  have w: "fst (analyzeFileStructure partial_host ''acme'' ''widgets'' [] 0) =
      [FileNode ''index.ts'' ''index.ts'' 7,
       DirNode ''src'' ''src'' [FileNode ''main.ts'' ''src/main.ts'' 11],
       DirNode ''gone'' ''gone'' [],
       FileNode ''package.json'' ''package.json'' 300,
       FileNode ''README.md'' ''README.md'' 40]"
    by code_simp
  have s: "fst (getSampleFiles partial_host ''acme'' ''widgets''
      [FileNode ''index.ts'' ''index.ts'' 7,
       DirNode ''src'' ''src'' [FileNode ''main.ts'' ''src/main.ts'' 11],
       DirNode ''gone'' ''gone'' [],
       FileNode ''package.json'' ''package.json'' 300,
       FileNode ''README.md'' ''README.md'' 40]) =
      [\<lparr>sample_path = ''README.md'', sample_content = ''# Widgets''\<rparr>]"
    by code_simp
  have c: "analyzeProjectStats
      [FileNode ''index.ts'' ''index.ts'' 7,
       DirNode ''src'' ''src'' [FileNode ''main.ts'' ''src/main.ts'' 11],
       DirNode ''gone'' ''gone'' [],
       FileNode ''package.json'' ''package.json'' 300,
       FileNode ''README.md'' ''README.md'' 40] = \<lparr>totalFiles = 4, components = 0, pages = 0\<rparr>"
    by code_simp
  have nl: "\<forall>listing. fetch_listing partial_host
      (contents_url ''acme'' (strip_git ''widgets'') (entry_path (Entry ''gone'' ''gone'' ''dir'' 0))) \<noteq>
      Body listing"
    using r by (simp add: g)
  have nd: "\<not> startsWith ''gone'' ''.''"
    by code_simp
  have it: "entry_type (Entry ''gone'' ''gone'' ''dir'' 0) = ''dir'' \<and>
      \<not> startsWith (entry_name (Entry ''gone'' ''gone'' ''dir'' 0)) ''.'' \<and>
      entry_name (Entry ''gone'' ''gone'' ''dir'' 0) \<noteq> ''node_modules'' \<and>
      (\<forall>listing. fetch_listing partial_host
         (contents_url ''acme'' (strip_git ''widgets'')
            (entry_path (Entry ''gone'' ''gone'' ''dir'' 0))) \<noteq> Body listing)"
    using nl nd by simp
  note t = analyzeRepository_returns_snapshot [OF m h1 h2 disjI1 [OF h3]]
  from t [THEN conjunct1] obtain d
    where d1: "fst (analyzeRepository partial_host ''https://github.com/acme/widgets'') = Inr d"
      and d2: "repository d = widgets_info"
      and d3: "fileStructure d =
          fst (analyzeFileStructure partial_host ''acme'' (strip_git ''widgets'') [] 0)"
      and d4: "sampleFiles d =
          fst (getSampleFiles partial_host ''acme'' (strip_git ''widgets'') (fileStructure d))"
      and d5: "stats d = analyzeProjectStats (fileStructure d)"
    by (elim exE conjE) (rule that, assumption+)
  from d3 w have fs: "fileStructure d =
      [FileNode ''index.ts'' ''index.ts'' 7,
       DirNode ''src'' ''src'' [FileNode ''main.ts'' ''src/main.ts'' 11],
       DirNode ''gone'' ''gone'' [],
       FileNode ''package.json'' ''package.json'' 300,
       FileNode ''README.md'' ''README.md'' 40]"
    by (simp only: g)
  from d4 s have sf: "sampleFiles d =
      [\<lparr>sample_path = ''README.md'', sample_content = ''# Widgets''\<rparr>]"
    by (simp only: fs g)
  from d5 c have st: "stats d = \<lparr>totalFiles = 4, components = 0, pages = 0\<rparr>"
    by (simp only: fs)
  note e = t [THEN conjunct2, THEN conjunct2, THEN conjunct2, THEN conjunct1, THEN spec,
      THEN spec, THEN mp, OF it]
  have en: "entry_nodes partial_host ''acme'' ''widgets'' 0 (Entry ''gone'' ''gone'' ''dir'' 0) =
      [DirNode ''gone'' ''gone'' []]"
    using e [of 0] by (simp add: g)
  have ex: "\<exists>d. fst (analyzeRepository partial_host ''https://github.com/acme/widgets'') = Inr d \<and>
        repository d = widgets_info \<and>
        fileStructure d =
          [FileNode ''index.ts'' ''index.ts'' 7,
           DirNode ''src'' ''src'' [FileNode ''main.ts'' ''src/main.ts'' 11],
           DirNode ''gone'' ''gone'' [],
           FileNode ''package.json'' ''package.json'' 300,
           FileNode ''README.md'' ''README.md'' 40] \<and>
        sampleFiles d = [\<lparr>sample_path = ''README.md'', sample_content = ''# Widgets''\<rparr>] \<and>
        stats d = \<lparr>totalFiles = 4, components = 0, pages = 0\<rparr>"
    by (intro exI [where x = d] conjI) (rule d1 d2 fs sf st)+
  show ?thesis
    by (intro conjI) (rule r p ex en)+
qed

text \<open>
  Against C3 as stated: the metadata request succeeds and the request of
  \<open>analyzeRepository\<close> for the listing of the root is not ok; the result is an error.
\<close>

theorem analyzeRepository_root_listing_failure:
  "fetch_repo (widgets_host NotOk (Body [])) ''https://api.github.com/repos/acme/widgets'' =
     Body widgets_info \<and>
   analyzeRepository (widgets_host NotOk (Body [])) ''https://github.com/acme/widgets'' =
     (Inl (Error ''Failed to analyze repository: Failed to fetch repository contents''),
      [''https://api.github.com/repos/acme/widgets'',
       ''https://api.github.com/repos/acme/widgets/contents''])"
  by code_simp

section \<open>Properties of the narrative response parser\<close>

lemma closes_brace: "closes cs d \<Longrightarrow> CHR ''}'' \<in> set cs"
  by (induction cs d rule: closes.induct) (auto split: if_splits nat.splits)

lemma brace_closes: "CHR ''}'' \<in> set cs \<Longrightarrow> closes cs 0 \<or> has_balanced_span cs"
  by (induction cs) auto

lemma has_balanced_span_append: "has_balanced_span ys \<Longrightarrow> has_balanced_span (xs @ ys)"
  by (induction xs) simp_all

lemma has_balanced_span_decomp:
  "has_balanced_span s \<Longrightarrow>
     \<exists>pre mid. s = pre @ CHR ''{'' # mid \<and> CHR ''{'' \<notin> set pre \<and> CHR ''}'' \<in> set mid"
proof (induction s)
  case Nil
  then show ?case by simp
next
  case (Cons c cs)
  show ?case
  proof (cases "c = CHR ''{''")
    case True
    have "CHR ''}'' \<in> set cs"
    proof (cases "closes cs 0")
      case True
      then show ?thesis by (rule closes_brace)
    next
      case False
      with Cons.prems have "has_balanced_span cs" by simp
      with Cons.IH show ?thesis by auto
    qed
    with True have "c # cs = [] @ CHR ''{'' # cs \<and> CHR ''{'' \<notin> set [] \<and> CHR ''}'' \<in> set cs"
      by simp
    then show ?thesis by blast
  next
    case False
    with Cons.prems have "has_balanced_span cs" by simp
    with Cons.IH obtain pre mid where "cs = pre @ CHR ''{'' # mid" "CHR ''{'' \<notin> set pre"
        "CHR ''}'' \<in> set mid"
      by blast
    with False have "c # cs = (c # pre) @ CHR ''{'' # mid \<and> CHR ''{'' \<notin> set (c # pre) \<and>
        CHR ''}'' \<in> set mid"
      by simp
    then show ?thesis by blast
  qed
qed

lemma match_json_Some_iff:
  "match_json s \<noteq> None \<longleftrightarrow>
     (\<exists>pre mid. s = pre @ CHR ''{'' # mid \<and> CHR ''{'' \<notin> set pre \<and> CHR ''}'' \<in> set mid)"
proof
  assume m: "match_json s \<noteq> None"
  define fb where "fb = dropWhile (\<lambda>c. c \<noteq> CHR ''{'') s"
  from m have ne: "fb \<noteq> []"
    by (auto simp: match_json_def Let_def fb_def split: if_splits)
  with hd_dropWhile [of "\<lambda>c. c \<noteq> CHR ''{''" s] have "hd fb = CHR ''{''"
    by (simp add: fb_def)
  with ne have fb: "fb = CHR ''{'' # tl fb" by (cases fb) simp_all
  from m ne have "dropWhile (\<lambda>c. c \<noteq> CHR ''}'') (rev (tl fb)) \<noteq> []"
    by (auto simp: match_json_def Let_def fb_def split: if_splits)
  then have "CHR ''}'' \<in> set (tl fb)"
    by (auto simp: dropWhile_eq_Nil_conv)
  moreover have "s = takeWhile (\<lambda>c. c \<noteq> CHR ''{'') s @ fb"
    by (simp add: fb_def)
  moreover have "CHR ''{'' \<notin> set (takeWhile (\<lambda>c. c \<noteq> CHR ''{'') s)"
    by (auto dest: set_takeWhileD)
  ultimately show "\<exists>pre mid. s = pre @ CHR ''{'' # mid \<and> CHR ''{'' \<notin> set pre \<and> CHR ''}'' \<in> set mid"
    using fb by metis
next
  assume "\<exists>pre mid. s = pre @ CHR ''{'' # mid \<and> CHR ''{'' \<notin> set pre \<and> CHR ''}'' \<in> set mid"
  then obtain pre mid where s: "s = pre @ CHR ''{'' # mid" and p: "CHR ''{'' \<notin> set pre"
    and c: "CHR ''}'' \<in> set mid"
    by blast
  have np: "x \<noteq> CHR ''{''" if "x \<in> set pre" for x using that p by auto
  have "dropWhile (\<lambda>c. c \<noteq> CHR ''{'') s = CHR ''{'' # mid"
    by (simp add: s dropWhile_append2 np)
  moreover from c have "dropWhile (\<lambda>c. c \<noteq> CHR ''}'') (rev mid) \<noteq> []"
    by (auto simp: dropWhile_eq_Nil_conv)
  ultimately show "match_json s \<noteq> None"
    by (simp add: match_json_def Let_def)
qed

lemma has_balanced_span_iff_match: "has_balanced_span s \<longleftrightarrow> match_json s \<noteq> None"
proof
  assume "has_balanced_span s"
  then show "match_json s \<noteq> None"
    unfolding match_json_Some_iff by (rule has_balanced_span_decomp)
next
  assume "match_json s \<noteq> None"
  then obtain pre mid where s: "s = pre @ CHR ''{'' # mid" and c: "CHR ''}'' \<in> set mid"
    unfolding match_json_Some_iff by blast
  from brace_closes [OF c] have "has_balanced_span (CHR ''{'' # mid)" by auto
  with s show "has_balanced_span s" by (simp add: has_balanced_span_append)
qed

text \<open>
  Claim C7. A text without a balanced span of braces has no match of the pattern, so
  \<open>parseAnalysisResult\<close> returns the fixed fallback; so it does when \<open>JSON.parse\<close>
  throws on the match. The function returns a result on every text: no error leaves
  it. The fallback has complexity 5 and non-empty features and recommendations.
\<close>

theorem parseAnalysisResult_fallback:
  "(\<not> has_balanced_span text \<longrightarrow> parseAnalysisResult rt text = fallback_result) \<and>
   (\<forall>jsonString. match_json text = Some jsonString \<and> JSON_parse rt jsonString = None \<longrightarrow>
      parseAnalysisResult rt text = fallback_result) \<and>
   complexity (insights fallback_result) = Num 5 \<and>
   features fallback_result \<noteq> [] \<and>
   recommendations fallback_result \<noteq> []"
proof (intro conjI allI impI)
  assume "\<not> has_balanced_span text"
  then have "match_json text = None"
    by (simp add: has_balanced_span_iff_match)
  then show "parseAnalysisResult rt text = fallback_result"
    by (simp add: parseAnalysisResult_def)
next
  fix jsonString
  assume "match_json text = Some jsonString \<and> JSON_parse rt jsonString = None"
  then show "parseAnalysisResult rt text = fallback_result"
    by (simp add: parseAnalysisResult_def)
next
  show "complexity (insights fallback_result) = Num 5"
    by (simp add: fallback_result_def)
  show "features fallback_result \<noteq> []"
    by (simp add: fallback_result_def)
  show "recommendations fallback_result \<noteq> []"
    by (simp add: fallback_result_def)
qed

theorem parseAnalysisResult_fallback_witness:
  "\<not> has_balanced_span ''} I could not analyze this repository. {'' \<and>
   parseAnalysisResult example_runtime ''} I could not analyze this repository. {'' =
     fallback_result \<and>
   match_json ''Result: {not json}.'' = Some ''{not json}'' \<and>
   JSON_parse example_runtime ''{not json}'' = None \<and>
   parseAnalysisResult example_runtime ''Result: {not json}.'' = fallback_result"
proof -
  have a: "\<not> has_balanced_span ''} I could not analyze this repository. {''"
    by code_simp
  have b: "match_json ''Result: {not json}.'' = Some ''{not json}''"
    by code_simp
  have c: "JSON_parse example_runtime ''{not json}'' = None"
    by code_simp
  from a b c
    parseAnalysisResult_fallback [of "''} I could not analyze this repository. {''" example_runtime]
    parseAnalysisResult_fallback [of "''Result: {not json}.''" example_runtime]
  show ?thesis by blast
qed

lemma clamp_falsy:
  assumes "\<not> truthy (opt_chain (get_prop parsed ''insights'') ''complexity'')"
  shows "clamp_complexity rt parsed = Some (Num 5)"
  using assms by (simp add: clamp_complexity_def js_or_def)

lemma clamp_true:
  assumes "opt_chain (get_prop parsed ''insights'') ''complexity'' = Some (JBool True)"
  shows "clamp_complexity rt parsed = Some (Num 1)"
  using assms by (simp add: clamp_complexity_def js_or_def)

lemma clamp_number:
  assumes "opt_chain (get_prop parsed ''insights'') ''complexity'' = Some (JNum n)"
  shows "clamp_complexity rt parsed = Some (Num (if n = 0 then 5 else max 1 (min 10 n)))"
  using assms by (simp add: clamp_complexity_def js_or_def)

lemma clamp_missing:
  assumes "opt_chain (get_prop parsed ''insights'') ''complexity'' = None"
  shows "clamp_complexity rt parsed = Some (Num 5)"
  using assms by (simp add: clamp_complexity_def js_or_def)

lemma parse_object:
  assumes "match_json text = Some jsonString"
    and "JSON_parse rt jsonString = Some (JObj members)"
    and "clamp_complexity rt (JObj members) = Some c"
  shows "complexity (insights (parseAnalysisResult rt text)) = c"
  using assms by (simp add: parseAnalysisResult_def)

text \<open>
  Claim C1, as the code has it. On a parsed object, \<open>insights.complexity\<close> of the
  result is 5 when the parsed complexity is missing, and also when it is falsy, which
  \<open>||\<close> takes for missing: 0, \<open>null\<close>, \<open>false\<close> and the empty text all give 5.
  A parsed number other than 0 is clamped into the range from 1 to 10, so 15 gives 10
  and a negative number gives 1; every parsed number gives a result in this range.
  \<open>true\<close> converts to 1.
\<close>

theorem parseAnalysisResult_complexity:
  assumes "match_json text = Some jsonString"
    and "JSON_parse rt jsonString = Some (JObj members)"
  shows
   "(opt_chain (get_prop (JObj members) ''insights'') ''complexity'' = None \<longrightarrow>
       complexity (insights (parseAnalysisResult rt text)) = Num 5) \<and>
    (opt_chain (get_prop (JObj members) ''insights'') ''complexity'' = Some (JNum 0) \<longrightarrow>
       complexity (insights (parseAnalysisResult rt text)) = Num 5) \<and>
    (opt_chain (get_prop (JObj members) ''insights'') ''complexity'' = Some (JNum 15) \<longrightarrow>
       complexity (insights (parseAnalysisResult rt text)) = Num 10) \<and>
    (\<forall>n. opt_chain (get_prop (JObj members) ''insights'') ''complexity'' = Some (JNum n) \<and>
          n \<noteq> 0 \<longrightarrow>
       complexity (insights (parseAnalysisResult rt text)) = Num (max 1 (min 10 n))) \<and>
    (opt_chain (get_prop (JObj members) ''insights'') ''complexity'' = Some JNull \<longrightarrow>
       complexity (insights (parseAnalysisResult rt text)) = Num 5) \<and>
    (opt_chain (get_prop (JObj members) ''insights'') ''complexity'' = Some (JBool False) \<longrightarrow>
       complexity (insights (parseAnalysisResult rt text)) = Num 5) \<and>
    (opt_chain (get_prop (JObj members) ''insights'') ''complexity'' = Some (JStr []) \<longrightarrow>
       complexity (insights (parseAnalysisResult rt text)) = Num 5) \<and>
    (opt_chain (get_prop (JObj members) ''insights'') ''complexity'' = Some (JBool True) \<longrightarrow>
       complexity (insights (parseAnalysisResult rt text)) = Num 1) \<and>
    (\<not> truthy (opt_chain (get_prop (JObj members) ''insights'') ''complexity'') \<longrightarrow>
       complexity (insights (parseAnalysisResult rt text)) = Num 5) \<and>
    (\<forall>n. opt_chain (get_prop (JObj members) ''insights'') ''complexity'' = Some (JNum n) \<longrightarrow>
       (\<exists>c. complexity (insights (parseAnalysisResult rt text)) = Num c \<and> 1 \<le> c \<and> c \<le> 10))"
proof -
  let ?v = "opt_chain (get_prop (JObj members) ''insights'') ''complexity''"
  let ?r = "complexity (insights (parseAnalysisResult rt text))"
  note po = parse_object [OF assms]
  have falsy: "?r = Num 5" if "\<not> truthy ?v"
    using that by (simp add: po clamp_falsy)
  have num: "?r = Num (if n = 0 then 5 else max 1 (min 10 n))" if "?v = Some (JNum n)" for n
    using that by (simp add: po clamp_number)
  have tr: "?r = Num 1" if "?v = Some (JBool True)"
    using that by (simp add: po clamp_true)
  have range: "\<exists>c. ?r = Num c \<and> 1 \<le> c \<and> c \<le> 10" if "?v = Some (JNum n)" for n
    using num [OF that] by (cases "n = 0") auto
  show ?thesis
  proof (intro conjI allI impI)
    assume "?v = None"
    then show "?r = Num 5" by (simp add: falsy)
  next
    assume "?v = Some (JNum 0)"
    then show "?r = Num 5" by (simp add: falsy)
  next
    assume "?v = Some (JNum 15)"
    from num [OF this] show "?r = Num 10" by simp
  next
    fix n
    assume "?v = Some (JNum n) \<and> n \<noteq> 0"
    then show "?r = Num (max 1 (min 10 n))" using num [of n] by simp
  next
    assume "?v = Some JNull"
    then show "?r = Num 5" by (simp add: falsy)
  next
    assume "?v = Some (JBool False)"
    then show "?r = Num 5" by (simp add: falsy)
  next
    assume "?v = Some (JStr [])"
    then show "?r = Num 5" by (simp add: falsy)
  next
    assume "?v = Some (JBool True)"
    then show "?r = Num 1" by (rule tr)
  next
    assume "\<not> truthy ?v"
    then show "?r = Num 5" by (rule falsy)
  next
    fix n
    assume "?v = Some (JNum n)"
    then show "\<exists>c. ?r = Num c \<and> 1 \<le> c \<and> c \<le> 10" by (rule range)
  qed
qed

text \<open>
  A complexity of 15 gives 10 and one of -3 gives 1; an object without \<open>insights\<close>
  and a complexity of 0, of \<open>null\<close>, of \<open>false\<close> and of the empty text give 5.
\<close>

theorem parseAnalysisResult_complexity_witness:
  \<open>complexity (insights (parseAnalysisResult example_runtime
      ''Here is the analysis: {"insights":{"complexity":15}} I hope it helps.'')) = Num 10 \<and>
   complexity (insights (parseAnalysisResult example_runtime ''{"summary":"A tool"}'')) = Num 5 \<and>
   complexity (insights (parseAnalysisResult example_runtime
      ''{"insights":{"complexity":0}}'')) = Num 5 \<and>
   complexity (insights (parseAnalysisResult example_runtime
      ''{"insights":{"complexity":null}}'')) = Num 5 \<and>
   complexity (insights (parseAnalysisResult example_runtime
      ''{"insights":{"complexity":false}}'')) = Num 5 \<and>
   complexity (insights (parseAnalysisResult example_runtime
      ''{"insights":{"complexity":""}}'')) = Num 5 \<and>
   complexity (insights (parseAnalysisResult example_runtime
      ''{"insights":{"complexity":-3}}'')) = Num 1\<close>
proof -
  have m0: \<open>match_json ''{"insights":{"complexity":0}}'' =
      Some ''{"insights":{"complexity":0}}''\<close>
    by code_simp
  have p0: \<open>JSON_parse example_runtime ''{"insights":{"complexity":0}}'' =
      Some (JObj [(''insights'', JObj [(''complexity'', JNum 0)])])\<close>
    by code_simp
  have v0: "opt_chain (get_prop (JObj [(''insights'', JObj [(''complexity'', JNum 0)])])
      ''insights'') ''complexity'' = Some (JNum 0)"
    by simp
  have m1: \<open>match_json ''Here is the analysis: {"insights":{"complexity":15}} I hope it helps.'' =
      Some ''{"insights":{"complexity":15}}''\<close>
    by code_simp
  have p1: \<open>JSON_parse example_runtime ''{"insights":{"complexity":15}}'' =
      Some (JObj [(''insights'', JObj [(''complexity'', JNum 15)])])\<close>
    by code_simp
  have v1: "opt_chain (get_prop (JObj [(''insights'', JObj [(''complexity'', JNum 15)])])
      ''insights'') ''complexity'' = Some (JNum 15)"
    by simp
  have m2: \<open>match_json ''{"summary":"A tool"}'' = Some ''{"summary":"A tool"}''\<close>
    by code_simp
  have p2: \<open>JSON_parse example_runtime ''{"summary":"A tool"}'' =
      Some (JObj [(''summary'', JStr ''A tool'')])\<close>
    by code_simp
  have v2: "opt_chain (get_prop (JObj [(''summary'', JStr ''A tool'')]) ''insights'')
      ''complexity'' = None"
    by simp
  have m3: \<open>match_json ''{"insights":{"complexity":null}}'' =
      Some ''{"insights":{"complexity":null}}''\<close>
    by code_simp
  have p3: \<open>JSON_parse example_runtime ''{"insights":{"complexity":null}}'' =
      Some (JObj [(''insights'', JObj [(''complexity'', JNull)])])\<close>
    by code_simp
  have v3: "opt_chain (get_prop (JObj [(''insights'', JObj [(''complexity'', JNull)])])
      ''insights'') ''complexity'' = Some JNull"
    by simp
  have m4: \<open>match_json ''{"insights":{"complexity":false}}'' =
      Some ''{"insights":{"complexity":false}}''\<close>
    by code_simp
  have p4: \<open>JSON_parse example_runtime ''{"insights":{"complexity":false}}'' =
      Some (JObj [(''insights'', JObj [(''complexity'', JBool False)])])\<close>
    by code_simp
  have v4: "opt_chain (get_prop (JObj [(''insights'', JObj [(''complexity'', JBool False)])])
      ''insights'') ''complexity'' = Some (JBool False)"
    by simp
  have m5: \<open>match_json ''{"insights":{"complexity":""}}'' =
      Some ''{"insights":{"complexity":""}}''\<close>
    by code_simp
  have p5: \<open>JSON_parse example_runtime ''{"insights":{"complexity":""}}'' =
      Some (JObj [(''insights'', JObj [(''complexity'', JStr [])])])\<close>
    by code_simp
  have v5: "opt_chain (get_prop (JObj [(''insights'', JObj [(''complexity'', JStr [])])])
      ''insights'') ''complexity'' = Some (JStr [])"
    by simp
  have m6: \<open>match_json ''{"insights":{"complexity":-3}}'' =
      Some ''{"insights":{"complexity":-3}}''\<close>
    by code_simp
  have p6: \<open>JSON_parse example_runtime ''{"insights":{"complexity":-3}}'' =
      Some (JObj [(''insights'', JObj [(''complexity'', JNum (- 3))])])\<close>
    by code_simp
  have v6: "opt_chain (get_prop (JObj [(''insights'', JObj [(''complexity'', JNum (- 3))])])
      ''insights'') ''complexity'' = Some (JNum (- 3)) \<and> (- 3 :: real) \<noteq> 0"
    by simp
  have c6: "Num (max 1 (min 10 (- 3 :: real))) = Num 1"
    by simp
  note t0 = parseAnalysisResult_complexity [OF m0 p0]
  note t1 = parseAnalysisResult_complexity [OF m1 p1]
  note t2 = parseAnalysisResult_complexity [OF m2 p2]
  note t3 = parseAnalysisResult_complexity [OF m3 p3]
  note t4 = parseAnalysisResult_complexity [OF m4 p4]
  note t5 = parseAnalysisResult_complexity [OF m5 p5]
  note t6 = parseAnalysisResult_complexity [OF m6 p6]
  note r2 = t2 [THEN conjunct1, THEN mp, OF v2]
  note r0 = t0 [THEN conjunct2, THEN conjunct1, THEN mp, OF v0]
  note r1 = t1 [THEN conjunct2, THEN conjunct2, THEN conjunct1, THEN mp, OF v1]
  note r6 = t6 [THEN conjunct2, THEN conjunct2, THEN conjunct2, THEN conjunct1, THEN spec,
      THEN mp, OF v6, THEN trans, OF c6]
  note r3 = t3 [THEN conjunct2, THEN conjunct2, THEN conjunct2, THEN conjunct2, THEN conjunct1,
      THEN mp, OF v3]
  note r4 = t4 [THEN conjunct2, THEN conjunct2, THEN conjunct2, THEN conjunct2, THEN conjunct2,
      THEN conjunct1, THEN mp, OF v4]
  note r5 = t5 [THEN conjunct2, THEN conjunct2, THEN conjunct2, THEN conjunct2, THEN conjunct2,
      THEN conjunct2, THEN conjunct1, THEN mp, OF v5]
  show ?thesis
    by (intro conjI) (rule r1 r2 r0 r3 r4 r5 r6)+
qed

text \<open>
  Against C1 as stated: the service answers with a complexity of 0, and the complexity
  of the result is 5, not 1.
\<close>

theorem parseAnalysisResult_complexity_zero:
  \<open>match_json ''{"insights":{"complexity":0}}'' = Some ''{"insights":{"complexity":0}}'' \<and>
   JSON_parse example_runtime ''{"insights":{"complexity":0}}'' =
     Some (JObj [(''insights'', JObj [(''complexity'', JNum 0)])]) \<and>
   complexity (insights (parseAnalysisResult example_runtime ''{"insights":{"complexity":0}}'')) =
     Num 5 \<and>
   complexity (insights (parseAnalysisResult example_runtime ''{"insights":{"complexity":0}}'')) \<noteq>
     Num 1\<close>
  by code_simp

end
